theory Spec2Isabelle
  imports Complex_Main "HOL-Library.AList"
begin

section \<open>Storey loss functions: the loader and the interpolation-table builder\<close>

text \<open>
  A shallow embedding of \<^verbatim>\<open>tools/slf.py\<close> (class \<^verbatim>\<open>SLF\<close>): the legacy arithmetic of
  \<^verbatim>\<open>provided_slf\<close> and both paths of \<^verbatim>\<open>get_interpolation_functions\<close>.

  Numbers. The samples of a raw table are finite floating-point numbers and are modelled
  as \<^typ>\<open>real\<close>: arithmetic on them is exact, rounding and overflow are not modelled.
  Computed values can leave the finite numbers, because numpy and pandas divide by zero
  without raising; they live in \<open>npfloat\<close>, the reals extended by the IEEE special values.
  Python's own \<^verbatim>\<open>/\<close> on Python numbers raises \<^verbatim>\<open>ZeroDivisionError\<close> instead.

  Containers. A Python \<^verbatim>\<open>dict\<close> and the columns of a data frame are association lists in
  iteration order; their keys are pairwise distinct in Python. The loss and demand arrays
  of different leaves are taken to be different objects (no array is shared between two
  leaves), so the in-place write of the builder is modelled by returning the updated table.
\<close>

subsection \<open>Errors and numbers\<close>

datatype error =
    ValueError | KeyError | IndexError | ZeroDivisionError | TypeError | AttributeError
  | FormatError

datatype npfloat = Fin real | PInf | NInf | NaN

text \<open>The infinity (or NaN) with the sign of a real number.\<close>

definition inf_of :: "real \<Rightarrow> npfloat" where
  "inf_of s = (if 0 < s then PInf else if s < 0 then NInf else NaN)"

fun fsgn :: "npfloat \<Rightarrow> real" where
  "fsgn (Fin a) = sgn a"
| "fsgn PInf = 1"
| "fsgn NInf = - 1"
| "fsgn NaN = 0"

fun fneg :: "npfloat \<Rightarrow> npfloat" where
  "fneg (Fin a) = Fin (- a)"
| "fneg PInf = NInf"
| "fneg NInf = PInf"
| "fneg NaN = NaN"

fun fadd :: "npfloat \<Rightarrow> npfloat \<Rightarrow> npfloat" where
  "fadd NaN y = NaN"
| "fadd x NaN = NaN"
| "fadd (Fin a) (Fin b) = Fin (a + b)"
| "fadd (Fin a) y = y"
| "fadd x (Fin b) = x"
| "fadd PInf PInf = PInf"
| "fadd NInf NInf = NInf"
| "fadd PInf NInf = NaN"
| "fadd NInf PInf = NaN"

definition fsub :: "npfloat \<Rightarrow> npfloat \<Rightarrow> npfloat" where
  "fsub x y = fadd x (fneg y)"

fun fmul :: "npfloat \<Rightarrow> npfloat \<Rightarrow> npfloat" where
  "fmul NaN y = NaN"
| "fmul x NaN = NaN"
| "fmul (Fin a) (Fin b) = Fin (a * b)"
| "fmul x y = inf_of (fsgn x * fsgn y)"

text \<open>
  Division as numpy and pandas do it (a warning at most, never an exception). A zero
  divisor is \<open>+0\<close> wherever this program divides: a sum that starts from \<open>0\<close>, or a
  difference \<open>a - a\<close>.
\<close>

fun fdiv :: "npfloat \<Rightarrow> npfloat \<Rightarrow> npfloat" where
  "fdiv NaN y = NaN"
| "fdiv x NaN = NaN"
| "fdiv (Fin a) (Fin b) = (if b = 0 then inf_of a else Fin (a / b))"
| "fdiv (Fin a) y = Fin 0"
| "fdiv x (Fin b) = inf_of (fsgn x * (if 0 \<le> b then 1 else - 1))"
| "fdiv x y = NaN"

text \<open>IEEE comparison: every comparison with NaN is false.\<close>

fun flt :: "npfloat \<Rightarrow> npfloat \<Rightarrow> bool" where
  "flt NaN y = False"
| "flt x NaN = False"
| "flt (Fin a) (Fin b) = (a < b)"
| "flt x PInf = (x \<noteq> PInf)"
| "flt NInf y = (y \<noteq> NInf)"
| "flt x y = False"

text \<open>The order of \<^verbatim>\<open>np.argsort\<close> and \<^verbatim>\<open>np.searchsorted\<close>: IEEE order, NaN last.\<close>

fun sort_le :: "npfloat \<Rightarrow> npfloat \<Rightarrow> bool" where
  "sort_le x NaN = True"
| "sort_le NaN y = False"
| "sort_le x y = (\<not> flt y x)"

text \<open>
  The builtin \<^verbatim>\<open>max\<close> over a sequence: \<^verbatim>\<open>ValueError\<close> on an empty one, otherwise the
  first element, replaced by each later element that is greater.
\<close>

fun py_max :: "real list \<Rightarrow> error + real" where
  "py_max [] = Inl ValueError"
| "py_max (x # xs) = Inr (foldl (\<lambda>m v. if m < v then v else m) x xs)"

subsection \<open>\<^verbatim>\<open>scipy.interpolate.interp1d\<close>, as the builder uses it\<close>

text \<open>
  The builder calls \<^verbatim>\<open>interp1d(x, y)\<close> with the defaults: linear, \<^verbatim>\<open>assume_sorted=False\<close>,
  out-of-range queries raise. The constructor sorts the samples by \<open>x\<close> with a stable
  sort and keeps the sorted arrays; it rejects arrays of different lengths.
\<close>

datatype interp1d = Interp1d (interp_x: "npfloat list") (interp_y: "npfloat list")

fun insort_x :: "npfloat \<times> npfloat \<Rightarrow> (npfloat \<times> npfloat) list \<Rightarrow> (npfloat \<times> npfloat) list" where
  "insort_x p [] = [p]"
| "insort_x p (q # qs) = (if sort_le (fst p) (fst q) then p # q # qs else q # insort_x p qs)"

definition argsort_pairs :: "(npfloat \<times> npfloat) list \<Rightarrow> (npfloat \<times> npfloat) list" where
  "argsort_pairs ps = foldr insort_x ps []"

definition interp1d :: "npfloat list \<Rightarrow> npfloat list \<Rightarrow> error + interp1d" where
  "interp1d x y =
     (if length x \<noteq> length y \<or> x = [] then Inl ValueError
      else let ps = argsort_pairs (zip x y) in Inr (Interp1d (map fst ps) (map snd ps)))"

text \<open>IEEE equality and \<open>\<ge>\<close>: false when either side is NaN.\<close>

fun feq :: "npfloat \<Rightarrow> npfloat \<Rightarrow> bool" where
  "feq NaN y = False"
| "feq x NaN = False"
| "feq x y = (x = y)"

definition fge :: "npfloat \<Rightarrow> npfloat \<Rightarrow> bool" where
  "fge x y = (flt y x \<or> feq x y)"

text \<open>
  For arrays of floats, \<^verbatim>\<open>interp1d\<close> evaluates a linear interpolant with \<^verbatim>\<open>np.interp\<close>
  (\<^verbatim>\<open>_call_linear_np\<close>). Its search for the interval of a query, from numpy's
  \<^verbatim>\<open>compiled_base.c\<close>: a linear search in arrays of at most four samples, otherwise
  three probes around a guess and a bisection. \<open>-1\<close> is below the first sample, the
  length is above the last one.
\<close>

definition linear_search :: "npfloat \<Rightarrow> npfloat list \<Rightarrow> nat \<Rightarrow> int" where
  "linear_search key arr i0 =
     int i0 + int (length (takeWhile (\<lambda>a. fge key a) (drop i0 arr))) - 1"

function bisect :: "npfloat \<Rightarrow> npfloat list \<Rightarrow> nat \<Rightarrow> nat \<Rightarrow> nat" where
  "bisect key arr imin imax =
     (if imin < imax then
        (let imid = imin + (imax - imin) div 2
         in if fge key (arr ! imid) then bisect key arr (imid + 1) imax
            else bisect key arr imin imid)
      else imin)"
  by pat_completeness auto
termination
  by (relation "measure (\<lambda>(key, arr, imin, imax). imax - imin)") auto

definition binary_search_with_guess :: "npfloat \<Rightarrow> npfloat list \<Rightarrow> nat \<Rightarrow> int" where
  "binary_search_with_guess key arr guess0 =
     (let len = length arr
      in if flt (last arr) key then int len
         else if flt key (hd arr) then - 1
         else if len \<le> 4 then linear_search key arr 1
         else
           (let guess = max 1 (min guess0 (len - 3))
            in if flt key (arr ! guess) then
                 (if flt key (arr ! (guess - 1)) then
                    int (bisect key arr
                           (if 8 < guess \<and> fge key (arr ! (guess - 8)) then guess - 8 else 0)
                           (guess - 1)) - 1
                  else int guess - 1)
               else if flt key (arr ! (guess + 1)) then int guess
               else if flt key (arr ! (guess + 2)) then int guess + 1
               else
                 int (bisect key arr (guess + 2)
                        (if guess + 9 < len \<and> flt key (arr ! (guess + 8)) then guess + 8
                         else len)) - 1))"

text \<open>
  \<^verbatim>\<open>np.interp(x, xp, fp)\<close> at one query that is not NaN, for a non-empty \<open>xp\<close>: a sample
  that the query hits is returned as it is; a NaN of the interpolation formula is
  computed again from the right end of the interval.
\<close>

definition np_interp :: "npfloat \<Rightarrow> npfloat list \<Rightarrow> npfloat list \<Rightarrow> npfloat" where
  "np_interp x xp fp =
     (let n = length xp
      in if n = 1 then
           (if flt x (hd xp) then hd fp else if flt (hd xp) x then last fp else hd fp)
         else
           (let j = binary_search_with_guess x xp 0
            in if j = - 1 then hd fp
               else if j = int n then last fp
               else if j = int n - 1 then fp ! nat j
               else if feq (xp ! nat j) x then fp ! nat j
               else
                 (let slope = fdiv (fsub (fp ! (nat j + 1)) (fp ! nat j))
                                   (fsub (xp ! (nat j + 1)) (xp ! nat j));
                      r = fadd (fmul slope (fsub x (xp ! nat j))) (fp ! nat j)
                  in if r = NaN then
                       (let r2 = fadd (fmul slope (fsub x (xp ! (nat j + 1)))) (fp ! (nat j + 1))
                        in if r2 = NaN \<and> feq (fp ! nat j) (fp ! (nat j + 1)) then fp ! nat j
                           else r2)
                     else r)))"

text \<open>
  Evaluation at one demand value (\<^verbatim>\<open>_evaluate\<close>): the value of \<^verbatim>\<open>np.interp\<close>, unless the
  query is outside the samples, which raises (\<^verbatim>\<open>_check_bounds\<close>).
\<close>

definition interp_call :: "interp1d \<Rightarrow> real \<Rightarrow> error + npfloat" where
  "interp_call f x_new =
     (let x = interp_x f; y = interp_y f
      in if x = [] then Inl ValueError
         else
           (let y_new = np_interp (Fin x_new) x y
            in if flt (Fin x_new) (hd x) \<or> flt (last x) (Fin x_new) then Inl ValueError
               else Inr y_new))"

subsection \<open>The structured raw table and the \<^verbatim>\<open>SLF\<close> object\<close>

text \<open>
  \<^verbatim>\<open>df[d][key][i]\<close> (non-directional) and \<^verbatim>\<open>df[d][key][x][i]\<close> (directional) are
  dictionaries with the arrays \<^verbatim>\<open>"edp"\<close> and \<^verbatim>\<open>"loss"\<close> (numpy arrays: line 132 indexes the
  loss array by a boolean mask). The empty dictionary is both \<open>Stories []\<close> and
  \<open>Directions []\<close>.
\<close>

record leaf =
  edp :: "real list"
  loss :: "real list"

type_synonym stories = "(string \<times> leaf) list"

datatype node = Stories stories | Directions "(string \<times> stories) list"

type_synonym slf_dict = "(string \<times> (string \<times> node) list) list"

record SLF =
  fileName :: string
  nstories :: int
  repl_cost :: real
  flag3d :: bool
  normalize :: bool
  flag :: bool

definition endswith :: "string \<Rightarrow> string \<Rightarrow> bool" where
  "endswith s suffix =
     (length suffix \<le> length s \<and> drop (length s - length suffix) s = suffix)"

definition SLF_init :: "string \<Rightarrow> int \<Rightarrow> real \<Rightarrow> bool \<Rightarrow> bool \<Rightarrow> SLF" where
  "SLF_init file n cost three_d normalized =
     \<lparr>fileName = file, nstories = n, repl_cost = cost, flag3d = three_d, normalize = normalized,
      flag = (\<not> endswith file ''xlsx'')\<rparr>"

subsection \<open>Lines 97-112: the total component cost\<close>

text \<open>
  \<^verbatim>\<open>total_comp_cost\<close> starts as the Python integer \<open>0\<close> and becomes a numpy float with
  the first maximum that is added to it.
\<close>

datatype cost = PyInt0 | Float64 real

fun cost_value :: "cost \<Rightarrow> real" where
  "cost_value PyInt0 = 0"
| "cost_value (Float64 t) = t"

definition add_cost :: "cost \<Rightarrow> real \<Rightarrow> cost" where
  "add_cost c m = Float64 (cost_value c + m)"

fun sum_stories :: "cost \<Rightarrow> stories \<Rightarrow> error + cost" where
  "sum_stories c [] = Inr c"
| "sum_stories c ((i, l) # rest) =
     (case py_max (loss l) of
        Inl e \<Rightarrow> Inl e
      | Inr m \<Rightarrow> sum_stories (add_cost c m) rest)"

definition directions :: "SLF \<Rightarrow> string list" where
  "directions self = (if flag3d self then [''dir1'', ''dir2''] else [''dir1''])"

fun sum_directions :: "cost \<Rightarrow> (string \<times> stories) list \<Rightarrow> string list \<Rightarrow> error + cost" where
  "sum_directions c ds [] = Inr c"
| "sum_directions c ds (x # xs) =
     (case map_of ds x of
        None \<Rightarrow> Inl KeyError
      | Some st \<Rightarrow>
          (case sum_stories c st of
             Inl e \<Rightarrow> Inl e
           | Inr c' \<Rightarrow> sum_directions c' ds xs))"

text \<open>
  The body of \<^verbatim>\<open>for key in df[d]\<close>. A node of the other shape makes the Python raise:
  under \<^verbatim>\<open>"Non-directional"\<close> the lookup \<^verbatim>\<open>["loss"]\<close> in a dictionary of stories
  (\<^verbatim>\<open>KeyError\<close>, or \<^verbatim>\<open>TypeError\<close> when a story is called \<^verbatim>\<open>"loss"\<close> and a string is added
  to the total); under any other class the lookup \<^verbatim>\<open>["dir1"]\<close> (\<^verbatim>\<open>KeyError\<close>, or
  \<^verbatim>\<open>IndexError\<close> when a story is called \<^verbatim>\<open>"dir1"\<close> and an array is indexed by a string).
\<close>

definition sum_key :: "SLF \<Rightarrow> string \<Rightarrow> cost \<Rightarrow> node \<Rightarrow> error + cost" where
  "sum_key self d c nd =
     (if d = ''Non-directional'' then
        (case nd of
           Stories st \<Rightarrow> sum_stories c st
         | Directions ds \<Rightarrow>
             (case ds of
                [] \<Rightarrow> Inr c
              | (x, st) # _ \<Rightarrow> if map_of st ''loss'' = None then Inl KeyError else Inl TypeError))
      else
        (case nd of
           Directions ds \<Rightarrow> sum_directions c ds (directions self)
         | Stories st \<Rightarrow> if map_of st ''dir1'' = None then Inl KeyError else Inl IndexError))"

fun sum_keys :: "SLF \<Rightarrow> string \<Rightarrow> cost \<Rightarrow> (string \<times> node) list \<Rightarrow> error + cost" where
  "sum_keys self d c [] = Inr c"
| "sum_keys self d c ((key, nd) # rest) =
     (case sum_key self d c nd of
        Inl e \<Rightarrow> Inl e
      | Inr c' \<Rightarrow> sum_keys self d c' rest)"

fun sum_classes :: "SLF \<Rightarrow> cost \<Rightarrow> slf_dict \<Rightarrow> error + cost" where
  "sum_classes self c [] = Inr c"
| "sum_classes self c ((d, keys) # rest) =
     (case sum_keys self d c keys of
        Inl e \<Rightarrow> Inl e
      | Inr c' \<Rightarrow> sum_classes self c' rest)"

definition total_comp_cost :: "SLF \<Rightarrow> slf_dict \<Rightarrow> error + cost" where
  "total_comp_cost self df = sum_classes self PyInt0 df"

subsection \<open>Lines 114-117: the factor\<close>

text \<open>
  \<^verbatim>\<open>self.repl_cost / total_comp_cost\<close>: a Python float divided by the Python integer \<open>0\<close>
  raises; divided by a numpy float it is numpy's division, which does not.
\<close>

definition factor_of :: "SLF \<Rightarrow> cost \<Rightarrow> error + npfloat" where
  "factor_of self c =
     (if normalize self then
        (case c of
           PyInt0 \<Rightarrow> Inl ZeroDivisionError
         | Float64 t \<Rightarrow> Inr (fdiv (Fin (repl_cost self)) (Fin t)))
      else Inr (Fin 1))"

subsection \<open>Lines 119-147: the interpolation functions\<close>

datatype out_node =
    OStories "(int \<times> interp1d) list"
  | ODirections "(string \<times> (int \<times> interp1d) list) list"

type_synonym interpolation_functions = "(string \<times> (string \<times> out_node) list) list"

text \<open>Line 132, \<^verbatim>\<open>loss[loss < 0] = 0.0\<close>, as the new content of the array.\<close>

definition clamp :: "real list \<Rightarrow> real list" where
  "clamp ls = map (\<lambda>v. if v < 0 then 0 else v) ls"

text \<open>\<^verbatim>\<open>slf_temp * factor\<close>.\<close>

definition scaled :: "npfloat \<Rightarrow> real list \<Rightarrow> npfloat list" where
  "scaled factor ys = map (\<lambda>v. fmul (Fin v) factor) ys"

text \<open>\<^verbatim>\<open>int(i[-1])\<close>: \<^verbatim>\<open>IndexError\<close> on the empty string, \<^verbatim>\<open>ValueError\<close> on a non-digit.\<close>

definition story_key :: "string \<Rightarrow> error + int" where
  "story_key i =
     (if i = [] then Inl IndexError
      else let n = (of_char (last i) :: nat)
           in if 48 \<le> n \<and> n \<le> 57 then Inr (int n - 48) else Inl ValueError)"

text \<open>
  Lines 129-135, one non-directional leaf: the loss array is overwritten first, then the
  right-hand side of line 135 is evaluated, then the key of its target.
\<close>

definition nd_entry :: "npfloat \<Rightarrow> string \<Rightarrow> leaf \<Rightarrow> leaf \<times> (error + int \<times> interp1d)" where
  "nd_entry factor i l =
     (let edp_temp = 0 # edp l;
          l' = l\<lparr>loss := clamp (loss l)\<rparr>;
          slf_temp = 0 # loss l'
      in (l',
          case interp1d (map Fin edp_temp) (scaled factor slf_temp) of
            Inl e \<Rightarrow> Inl e
          | Inr f \<Rightarrow> (case story_key i of Inl e \<Rightarrow> Inl e | Inr k \<Rightarrow> Inr (k, f))))"

text \<open>Lines 144-147, one directional leaf: nothing is overwritten.\<close>

definition dir_entry :: "npfloat \<Rightarrow> string \<Rightarrow> leaf \<Rightarrow> error + int \<times> interp1d" where
  "dir_entry factor i l =
     (let edp_temp = 0 # edp l;
          slf_temp = 0 # loss l
      in case interp1d (map Fin edp_temp) (scaled factor slf_temp) of
           Inl e \<Rightarrow> Inl e
         | Inr f \<Rightarrow> (case story_key i of Inl e \<Rightarrow> Inl e | Inr k \<Rightarrow> Inr (k, f)))"

text \<open>
  The loops over the stories. \<open>out\<close> is the dictionary being filled; an assignment to a
  key that is present replaces its value (\<open>AList.update\<close>). An exception leaves the
  leaves visited so far overwritten.
\<close>

fun nd_stories ::
  "npfloat \<Rightarrow> stories \<Rightarrow> (int \<times> interp1d) list \<Rightarrow> stories \<times> (error + (int \<times> interp1d) list)" where
  "nd_stories factor [] out = ([], Inr out)"
| "nd_stories factor ((i, l) # rest) out =
     (case nd_entry factor i l of
        (l', Inl e) \<Rightarrow> ((i, l') # rest, Inl e)
      | (l', Inr (k, f)) \<Rightarrow>
          (case nd_stories factor rest (AList.update k f out) of
             (rest', r) \<Rightarrow> ((i, l') # rest', r)))"

fun dir_stories ::
  "npfloat \<Rightarrow> stories \<Rightarrow> (int \<times> interp1d) list \<Rightarrow> error + (int \<times> interp1d) list" where
  "dir_stories factor [] out = Inr out"
| "dir_stories factor ((i, l) # rest) out =
     (case dir_entry factor i l of
        Inl e \<Rightarrow> Inl e
      | Inr (k, f) \<Rightarrow> dir_stories factor rest (AList.update k f out))"

fun dir_directions ::
  "npfloat \<Rightarrow> (string \<times> stories) list \<Rightarrow> error + (string \<times> (int \<times> interp1d) list) list" where
  "dir_directions factor [] = Inr []"
| "dir_directions factor ((x, st) # rest) =
     (case dir_stories factor st [] of
        Inl e \<Rightarrow> Inl e
      | Inr fs \<Rightarrow>
          (case dir_directions factor rest of
             Inl e \<Rightarrow> Inl e
           | Inr os \<Rightarrow> Inr ((x, fs) # os)))"

text \<open>
  The body of \<^verbatim>\<open>for key in df[d]\<close> in the second loop. A non-empty node of the other
  shape is not reached: the first loop has raised on it.
\<close>

definition build_key :: "npfloat \<Rightarrow> string \<Rightarrow> node \<Rightarrow> node \<times> (error + out_node)" where
  "build_key factor d nd =
     (if d = ''Non-directional'' then
        (case nd of
           Stories st \<Rightarrow>
             (case nd_stories factor st [] of
                (st', Inl e) \<Rightarrow> (Stories st', Inl e)
              | (st', Inr fs) \<Rightarrow> (Stories st', Inr (OStories fs)))
         | Directions ds \<Rightarrow> (nd, if ds = [] then Inr (OStories []) else Inl KeyError))
      else
        (case nd of
           Directions ds \<Rightarrow>
             (case dir_directions factor ds of
                Inl e \<Rightarrow> (nd, Inl e)
              | Inr os \<Rightarrow> (nd, Inr (ODirections os)))
         | Stories st \<Rightarrow> (nd, if st = [] then Inr (ODirections []) else Inl IndexError)))"

fun build_keys ::
  "npfloat \<Rightarrow> string \<Rightarrow> (string \<times> node) list
     \<Rightarrow> (string \<times> node) list \<times> (error + (string \<times> out_node) list)" where
  "build_keys factor d [] = ([], Inr [])"
| "build_keys factor d ((key, nd) # rest) =
     (case build_key factor d nd of
        (nd', Inl e) \<Rightarrow> ((key, nd') # rest, Inl e)
      | (nd', Inr out) \<Rightarrow>
          (case build_keys factor d rest of
             (rest', Inl e) \<Rightarrow> ((key, nd') # rest', Inl e)
           | (rest', Inr os) \<Rightarrow> ((key, nd') # rest', Inr ((key, out) # os))))"

fun build_classes :: "npfloat \<Rightarrow> slf_dict \<Rightarrow> slf_dict \<times> (error + interpolation_functions)" where
  "build_classes factor [] = ([], Inr [])"
| "build_classes factor ((d, keys) # rest) =
     (case build_keys factor d keys of
        (keys', Inl e) \<Rightarrow> ((d, keys') # rest, Inl e)
      | (keys', Inr out) \<Rightarrow>
          (case build_classes factor rest of
             (rest', Inl e) \<Rightarrow> ((d, keys') # rest', Inl e)
           | (rest', Inr os) \<Rightarrow> ((d, keys') # rest', Inr ((d, out) # os))))"

text \<open>
  The structured branch of \<^verbatim>\<open>get_interpolation_functions\<close>: the table as the call leaves
  it, and the exception or the returned dictionary.
\<close>

definition structured_functions ::
  "SLF \<Rightarrow> slf_dict \<Rightarrow> slf_dict \<times> (error + interpolation_functions)" where
  "structured_functions self df =
     (case total_comp_cost self df of
        Inl e \<Rightarrow> (df, Inl e)
      | Inr c \<Rightarrow>
          (case factor_of self c of
             Inl e \<Rightarrow> (df, Inl e)
           | Inr factor \<Rightarrow> build_classes factor df))"

subsection \<open>Lines 79-93: the legacy branch of the builder\<close>

type_synonym data_frame = "(string \<times> npfloat list) list"

definition startswith :: "string \<Rightarrow> string \<Rightarrow> bool" where
  "startswith s prefix = (take (length prefix) s = prefix)"

text \<open>\<^verbatim>\<open>key[-3:]\<close>: the last three characters, or the whole string when it is shorter.\<close>

definition last3 :: "string \<Rightarrow> string" where
  "last3 key = drop (length key - 3) key"

text \<open>
  \<^verbatim>\<open>re.search('_(.*)_', key)\<close>: the leftmost underscore that is followed, before the next
  newline, by another underscore; group 1 is greedy and ends at the last such underscore.
  \<open>None\<close> is Python's \<^verbatim>\<open>None\<close>, on which \<^verbatim>\<open>.group(1)\<close> raises \<^verbatim>\<open>AttributeError\<close>.
\<close>

definition greedy_group :: "string \<Rightarrow> string option" where
  "greedy_group cs =
     (let line = takeWhile (\<lambda>c. c \<noteq> CHR 0x0A) cs
      in if CHR ''_'' \<in> set line
         then Some (rev (tl (dropWhile (\<lambda>c. c \<noteq> CHR ''_'') (rev line))))
         else None)"

fun re_search_group :: "string \<Rightarrow> string option" where
  "re_search_group [] = None"
| "re_search_group (c # cs) =
     (if c = CHR ''_'' then
        (case greedy_group cs of
           Some g \<Rightarrow> Some g
         | None \<Rightarrow> re_search_group cs)
      else re_search_group cs)"

text \<open>Lines 84-93, one column whose name starts with \<^verbatim>\<open>E_\<close>.\<close>

definition legacy_entry :: "data_frame \<Rightarrow> string \<Rightarrow> error + string \<times> interp1d" where
  "legacy_entry df key =
     (case map_of df key of
        None \<Rightarrow> Inl KeyError
      | Some column \<Rightarrow>
          (let slf_temp = Fin 0 # column
           in case re_search_group key of
                None \<Rightarrow> Inl AttributeError
              | Some component_type \<Rightarrow>
                  (let name = last3 key @ ''_'' @ component_type
                   in case (case map_of df name of
                              Some e \<Rightarrow> Some e
                            | None \<Rightarrow> map_of df (last3 key)) of
                        None \<Rightarrow> Inl KeyError
                      | Some e \<Rightarrow>
                          (let edp_temp = Fin 0 # e
                           in case interp1d edp_temp slf_temp of
                                Inl err \<Rightarrow> Inl err
                              | Inr f \<Rightarrow> Inr (name, f)))))"

fun legacy_loop ::
  "data_frame \<Rightarrow> string list \<Rightarrow> (string \<times> interp1d) list \<Rightarrow> error + (string \<times> interp1d) list" where
  "legacy_loop df [] out = Inr out"
| "legacy_loop df (key # keys) out =
     (if startswith key ''E_'' then
        (case legacy_entry df key of
           Inl e \<Rightarrow> Inl e
         | Inr (name, f) \<Rightarrow> legacy_loop df keys (AList.update name f out))
      else legacy_loop df keys out)"

definition legacy_functions :: "data_frame \<Rightarrow> error + (string \<times> interp1d) list" where
  "legacy_functions df = legacy_loop df (map fst df) []"

subsection \<open>\<^verbatim>\<open>get_interpolation_functions\<close>\<close>

text \<open>
  \<^verbatim>\<open>self.flag\<close> selects the branch, whatever the table is. \<^verbatim>\<open>provided_slf\<close> returns the
  variant of the table that the same flag selects; the two other combinations are what
  the branches do on a table of the other kind.
\<close>

datatype raw_table = LegacyTable data_frame | StructuredTable slf_dict

datatype interp_table =
    LegacyFunctions "(string \<times> interp1d) list"
  | StructuredFunctions interpolation_functions

text \<open>
  The legacy branch on a dictionary: the keys are the class names, and one that does not
  start with \<^verbatim>\<open>E_\<close> is skipped. For one that does, \<^verbatim>\<open>np.array\<close> of a dictionary is an array
  that holds the dictionary as its one object and \<^verbatim>\<open>np.insert\<close> puts \<open>0\<close> before it;
  then the search of line 86 and the lookups of lines 88-90 are as for a data frame, and
  \<^verbatim>\<open>interp1d\<close> fails to sort \<open>0\<close> and a dictionary (\<^verbatim>\<open>TypeError\<close>).
\<close>

definition legacy_entry_dict :: "slf_dict \<Rightarrow> string \<Rightarrow> error" where
  "legacy_entry_dict d key =
     (case re_search_group key of
        None \<Rightarrow> AttributeError
      | Some component_type \<Rightarrow>
          if map_of d (last3 key @ ''_'' @ component_type) = None \<and> map_of d (last3 key) = None
          then KeyError
          else TypeError)"

fun legacy_loop_dict :: "slf_dict \<Rightarrow> string list \<Rightarrow> error + (string \<times> interp1d) list" where
  "legacy_loop_dict d [] = Inr []"
| "legacy_loop_dict d (key # keys) =
     (if startswith key ''E_'' then Inl (legacy_entry_dict d key)
      else legacy_loop_dict d keys)"

text \<open>
  The structured branch on a data frame: \<^verbatim>\<open>df[d]\<close> is a column and iterating it gives its
  values, so \<^verbatim>\<open>df[d][key]\<close> looks a value up as a row label. The rows that
  \<^verbatim>\<open>read_excel\<close> returns are labelled \<open>0, \<dots>, n - 1\<close>: the lookup raises \<^verbatim>\<open>KeyError\<close>
  unless the value is one of these integers, and then it gives a number, on which
  \<^verbatim>\<open>.keys()\<close> raises \<^verbatim>\<open>AttributeError\<close> (line 101) and \<^verbatim>\<open>["dir1"]\<close> raises
  \<^verbatim>\<open>IndexError\<close> (line 111). Columns without rows pass both loops, and line 121 gives
  each of them an empty dictionary.
\<close>

definition is_label :: "npfloat \<Rightarrow> nat \<Rightarrow> bool" where
  "is_label v n =
     (case v of
        Fin r \<Rightarrow> r = of_int \<lfloor>r\<rfloor> \<and> 0 \<le> r \<and> r < of_nat n
      | _ \<Rightarrow> False)"

fun frame_error :: "data_frame \<Rightarrow> error option" where
  "frame_error [] = None"
| "frame_error ((d, column) # rest) =
     (case column of
        [] \<Rightarrow> frame_error rest
      | v # vs \<Rightarrow>
          Some (if is_label v (length column)
                then (if d = ''Non-directional'' then AttributeError else IndexError)
                else KeyError))"

definition structured_on_frame :: "SLF \<Rightarrow> data_frame \<Rightarrow> error + interpolation_functions" where
  "structured_on_frame self t =
     (case frame_error t of
        Some e \<Rightarrow> Inl e
      | None \<Rightarrow>
          (case factor_of self PyInt0 of
             Inl e \<Rightarrow> Inl e
           | Inr factor \<Rightarrow> Inr (map (\<lambda>(d, column). (d, [])) t)))"

definition get_interpolation_functions ::
  "SLF \<Rightarrow> raw_table \<Rightarrow> raw_table \<times> (error + interp_table)" where
  "get_interpolation_functions self df =
     (if \<not> flag self then
        (case df of
           LegacyTable t \<Rightarrow>
             (df, case legacy_functions t of
                    Inl e \<Rightarrow> Inl e
                  | Inr fs \<Rightarrow> Inr (LegacyFunctions fs))
         | StructuredTable d \<Rightarrow>
             (df, case legacy_loop_dict d (map fst d) of
                    Inl e \<Rightarrow> Inl e
                  | Inr fs \<Rightarrow> Inr (LegacyFunctions fs)))
      else
        (case df of
           StructuredTable d \<Rightarrow>
             (case structured_functions self d of
                (d', Inl e) \<Rightarrow> (StructuredTable d', Inl e)
              | (d', Inr fs) \<Rightarrow> (StructuredTable d', Inr (StructuredFunctions fs)))
         | LegacyTable t \<Rightarrow>
             (df, case structured_on_frame self t of
                    Inl e \<Rightarrow> Inl e
                  | Inr fs \<Rightarrow> Inr (StructuredFunctions fs))))"

subsection \<open>Lines 40-59: the legacy branch of \<^verbatim>\<open>provided_slf\<close>\<close>

text \<open>
  The content of the source file is a parameter. Iterating a pandas series gives Python
  numbers, so \<^verbatim>\<open>max(...)\<close> is a Python number and the divisions of lines 49-51 and 54 are
  Python's (they raise on zero); the divisions of lines 57-59 are pandas' (they do not).
  An assignment to an existing column keeps its position.
\<close>

datatype file_content = Xlsx "(string \<times> real list) list" | Pickle slf_dict

text \<open>\<^verbatim>\<open>series * peak / max(series) * weight\<close>, evaluated from the left.\<close>

definition rescale :: "real list \<Rightarrow> real \<Rightarrow> real \<Rightarrow> real \<Rightarrow> npfloat list" where
  "rescale series peak m weight =
     map (\<lambda>s. fmul (fdiv (fmul (Fin s) (Fin peak)) (Fin m)) (Fin weight)) series"

definition provided_slf :: "SLF \<Rightarrow> file_content \<Rightarrow> error + raw_table" where
  "provided_slf self content =
     (if \<not> flag self then
        (case content of
           Pickle d \<Rightarrow> Inl FormatError
         | Xlsx df \<Rightarrow>
        (case map_of df ''E_NS_PFA'' of None \<Rightarrow> Inl KeyError | Some y_ns_pfa_range \<Rightarrow>
        (case map_of df ''E_S_IDR'' of None \<Rightarrow> Inl KeyError | Some y_s_psd_range \<Rightarrow>
        (case map_of df ''E_NS_IDR'' of None \<Rightarrow> Inl KeyError | Some y_ns_psd_range \<Rightarrow>
        (case py_max y_s_psd_range of Inl e \<Rightarrow> Inl e | Inr m_s_psd \<Rightarrow>
        (case py_max y_ns_psd_range of Inl e \<Rightarrow> Inl e | Inr m_ns_psd \<Rightarrow>
        (case py_max y_ns_pfa_range of Inl e \<Rightarrow> Inl e | Inr m_ns_pfa \<Rightarrow>
          (let max_slf = m_s_psd + m_ns_psd + m_ns_pfa
           in if max_slf = 0 then Inl ZeroDivisionError
              else
                (let max_s_psd = m_s_psd / max_slf;
                     max_ns_psd = m_ns_psd / max_slf;
                     max_ns_pfa = m_ns_pfa / max_slf
                 in if nstories self = 0 then Inl ZeroDivisionError
                    else
                      (let storey_loss_ratio_weight = 1 / of_int (nstories self);
                           df0 = map (\<lambda>(name, column). (name, map Fin column)) df;
                           df1 = AList.update ''E_NS_PFA''
                                   (rescale y_ns_pfa_range max_ns_pfa m_ns_pfa
                                      storey_loss_ratio_weight) df0;
                           df2 = AList.update ''E_NS_IDR''
                                   (rescale y_ns_psd_range max_ns_psd m_ns_psd
                                      storey_loss_ratio_weight) df1;
                           df3 = AList.update ''E_S_IDR''
                                   (rescale y_s_psd_range max_s_psd m_s_psd
                                      storey_loss_ratio_weight) df2
                       in Inr (LegacyTable df3)))))))))))
      else
        (case content of
           Pickle d \<Rightarrow> Inr (StructuredTable d)
         | Xlsx df \<Rightarrow> Inl FormatError))"

section \<open>Notions used to state the properties\<close>

subsection \<open>Which leaves the total is taken over\<close>

text \<open>The largest loss sample of a leaf.\<close>

definition peak :: "leaf \<Rightarrow> real" where
  "peak l = Max (set (loss l))"

definition stories_of :: "(string \<times> stories) list \<Rightarrow> string \<Rightarrow> stories" where
  "stories_of ds x = (case map_of ds x of None \<Rightarrow> [] | Some st \<Rightarrow> st)"

text \<open>
  The stories of one node that count towards the total: under \<^verbatim>\<open>"Non-directional"\<close> all
  of them; under any other class those of the primary direction, and those of the
  secondary direction as well when the model is three-dimensional.
\<close>

definition counted :: "SLF \<Rightarrow> string \<Rightarrow> node \<Rightarrow> stories" where
  "counted self d nd =
     (if d = ''Non-directional'' then
        (case nd of Stories st \<Rightarrow> st | Directions ds \<Rightarrow> [])
      else
        (case nd of
           Stories st \<Rightarrow> []
         | Directions ds \<Rightarrow>
             if flag3d self then stories_of ds ''dir1'' @ stories_of ds ''dir2''
             else stories_of ds ''dir1''))"

definition contributing :: "SLF \<Rightarrow> slf_dict \<Rightarrow> leaf list" where
  "contributing self df =
     concat (map (\<lambda>(d, keys). concat (map (\<lambda>(key, nd). map snd (counted self d nd)) keys)) df)"

text \<open>The total after the peaks of some leaves have been added to it.\<close>

definition accumulate :: "cost \<Rightarrow> leaf list \<Rightarrow> cost" where
  "accumulate c ls = (if ls = [] then c else Float64 (cost_value c + sum_list (map peak ls)))"

text \<open>The table without the directions other than \<^verbatim>\<open>"dir1"\<close>.\<close>

definition primary_node :: "node \<Rightarrow> node" where
  "primary_node nd =
     (case nd of
        Stories st \<Rightarrow> Stories st
      | Directions ds \<Rightarrow> Directions (filter (\<lambda>p. fst p = ''dir1'') ds))"

definition primary_only :: "slf_dict \<Rightarrow> slf_dict" where
  "primary_only df =
     map (\<lambda>(d, keys).
            (d, if d = ''Non-directional'' then keys
                else map (\<lambda>(key, nd). (key, primary_node nd)) keys)) df"

subsection \<open>Reading the output\<close>

text \<open>\<^verbatim>\<open>out[d][key][k]\<close> and \<^verbatim>\<open>out[d][key][x][k]\<close>.\<close>

definition nd_function ::
  "interpolation_functions \<Rightarrow> string \<Rightarrow> string \<Rightarrow> int \<Rightarrow> interp1d option" where
  "nd_function out d key k =
     (case map_of out d of
        None \<Rightarrow> None
      | Some ks \<Rightarrow>
          (case map_of ks key of
             Some (OStories fs) \<Rightarrow> map_of fs k
           | _ \<Rightarrow> None))"

definition dir_function ::
  "interpolation_functions \<Rightarrow> string \<Rightarrow> string \<Rightarrow> string \<Rightarrow> int \<Rightarrow> interp1d option" where
  "dir_function out d key x k =
     (case map_of out d of
        None \<Rightarrow> None
      | Some ks \<Rightarrow>
          (case map_of ks key of
             Some (ODirections os) \<Rightarrow>
               (case map_of os x of None \<Rightarrow> None | Some fs \<Rightarrow> map_of fs k)
           | _ \<Rightarrow> None))"

text \<open>The number of interpolants stored under \<^verbatim>\<open>out[d][key]\<close> and \<^verbatim>\<open>out[d][key][x]\<close>.\<close>

definition nd_count :: "interpolation_functions \<Rightarrow> string \<Rightarrow> string \<Rightarrow> nat option" where
  "nd_count out d key =
     (case map_of out d of
        None \<Rightarrow> None
      | Some ks \<Rightarrow>
          (case map_of ks key of
             Some (OStories fs) \<Rightarrow> Some (length fs)
           | _ \<Rightarrow> None))"

definition dir_count ::
  "interpolation_functions \<Rightarrow> string \<Rightarrow> string \<Rightarrow> string \<Rightarrow> nat option" where
  "dir_count out d key x =
     (case map_of out d of
        None \<Rightarrow> None
      | Some ks \<Rightarrow>
          (case map_of ks key of
             Some (ODirections os) \<Rightarrow>
               (case map_of os x of None \<Rightarrow> None | Some fs \<Rightarrow> Some (length fs))
           | _ \<Rightarrow> None))"

text \<open>The integer that \<^verbatim>\<open>int(i[-1])\<close> gives when the last character is a digit.\<close>

definition last_digit :: "string \<Rightarrow> int" where
  "last_digit i = int (of_char (last i)) - 48"

subsection \<open>The table with the negative non-directional losses set to zero\<close>

definition clamp_stories :: "stories \<Rightarrow> stories" where
  "clamp_stories st = map (\<lambda>(i, l). (i, l\<lparr>loss := clamp (loss l)\<rparr>)) st"

definition clamp_node :: "string \<Rightarrow> node \<Rightarrow> node" where
  "clamp_node d nd =
     (if d = ''Non-directional'' then
        (case nd of
           Stories st \<Rightarrow> Stories (clamp_stories st)
         | Directions ds \<Rightarrow> Directions ds)
      else nd)"

definition clamp_table :: "slf_dict \<Rightarrow> slf_dict" where
  "clamp_table df = map (\<lambda>(d, keys). (d, map (\<lambda>(key, nd). (key, clamp_node d nd)) keys)) df"

subsection \<open>Sample inputs\<close>

definition samples :: "real list \<Rightarrow> leaf" where
  "samples ys = \<lparr>edp = [0.01, 0.02], loss = ys\<rparr>"

definition two_story_table :: slf_dict where
  "two_story_table =
     [(''Non-directional'',
       [(''PFA_NS'', Stories [(''story0'', samples [100, 200]), (''story1'', samples [100, 200])])])]"

definition mixed_table :: slf_dict where
  "mixed_table =
     [(''Non-directional'', [(''PFA_NS'', Stories [(''story1'', samples [10, 20])])]),
      (''Directional'',
       [(''IDR_NS'',
         Directions [(''dir1'', [(''story1'', samples [1, 3])]),
                     (''dir2'', [(''story1'', samples [5, 7])])])])]"

definition directional_table :: "real list \<Rightarrow> slf_dict" where
  "directional_table ys =
     [(''Directional'',
       [(''IDR_NS'',
         Directions [(''dir1'', [(''story1'', samples ys)]),
                     (''dir2'', [(''story1'', samples ys)])])])]"

definition one_story_table :: "real list \<Rightarrow> slf_dict" where
  "one_story_table ys = [(''Non-directional'', [(''PFA_NS'', Stories [(''story0'', samples ys)])])]"

subsection \<open>Other sample inputs\<close>



definition legacy_sample :: data_frame where
  "legacy_sample =
     [(''IDR'', [Fin 0.01, Fin 0.02]), (''E_S_IDR'', [Fin 0.1, Fin 0.3]),
      (''PFA_NS'', [Fin 1, Fin 2]), (''E_NS_PFA'', [Fin 0.2, Fin 0.5])]"

definition xlsx_sample :: "real list \<Rightarrow> (string \<times> real list) list" where
  "xlsx_sample pfa_losses =
     [(''IDR'', [0.01, 0.02]), (''PFA'', [1, 2]), (''E_S_IDR'', [1, 2]),
      (''E_NS_IDR'', [1, 3]), (''E_NS_PFA'', pfa_losses)]"

subsection \<open>The factor of a call\<close>

definition the_factor :: "SLF \<Rightarrow> slf_dict \<Rightarrow> error + npfloat" where
  "the_factor self df =
     (case total_comp_cost self df of
        Inl e \<Rightarrow> Inl e
      | Inr c \<Rightarrow> factor_of self c)"

definition collision_table :: slf_dict where
  "collision_table =
     [(''Non-directional'',
       [(''PFA_NS'', Stories [(''story2'', samples [1, 2]), (''story12'', samples [3, 4])])]),
      (''Directional'',
       [(''IDR_NS'',
         Directions [(''dir1'', [(''story2'', samples [1, 2]), (''story12'', samples [3, 4])])])])]"

section \<open>Properties\<close>

lemmas eval_defs =
  samples_def two_story_table_def mixed_table_def directional_table_def one_story_table_def
  SLF_init_def endswith_def total_comp_cost_def sum_key_def directions_def add_cost_def
  factor_of_def structured_functions_def build_key_def nd_entry_def dir_entry_def
  interp1d_def argsort_pairs_def scaled_def clamp_def story_key_def inf_of_def


subsection \<open>The total component cost\<close>

lemma foldl_max: "foldl (\<lambda>m v. if m < v then v else m) (x::real) xs = Max (set (x # xs))"
proof (induction xs arbitrary: x)
  case Nil
  show ?case by simp
next
  case (Cons a xs)
  have "(if x < a then a else x) = max x a" by (simp add: max_def)
  then have "foldl (\<lambda>m v. if m < v then v else m) x (a # xs) = Max (set (max x a # xs))"
    using Cons.IH [of "max x a"] by simp
  also have "\<dots> = Max (set (x # a # xs))"
    by (cases "xs = []") (simp_all add: Max_insert max.assoc)
  finally show ?case .
qed

lemma py_max_Max: "py_max xs = Inr m \<Longrightarrow> xs \<noteq> [] \<and> m = Max (set xs)"
  by (cases xs) (simp_all only: py_max.simps foldl_max sum.inject, simp_all)

lemma accumulate_append: "accumulate (accumulate c as) bs = accumulate c (as @ bs)"
  by (simp add: accumulate_def)

lemma accumulate_Nil: "accumulate c [] = c"
  by (simp add: accumulate_def)

lemma sum_stories_acc: "sum_stories c st = Inr c' \<Longrightarrow> c' = accumulate c (map snd st)"
proof (induction st arbitrary: c)
  case Nil
  then show ?case by (simp add: accumulate_def)
next
  case (Cons p st)
  obtain i l where p: "p = (i, l)" by (cases p)
  from Cons.prems p obtain m where m: "py_max (loss l) = Inr m"
    and rest: "sum_stories (add_cost c m) st = Inr c'"
    by (auto split: sum.splits)
  from py_max_Max [OF m] have "add_cost c m = accumulate c [l]"
    by (simp add: peak_def add_cost_def accumulate_def)
  with Cons.IH [OF rest] have "c' = accumulate (accumulate c [l]) (map snd st)" by simp
  with p show ?case by (simp only: accumulate_append) simp
qed

lemma sum_directions_acc:
  "sum_directions c ds xs = Inr c' \<Longrightarrow>
   c' = accumulate c (map snd (concat (map (stories_of ds) xs)))"
proof (induction xs arbitrary: c)
  case Nil
  then show ?case by (simp add: accumulate_def)
next
  case (Cons x xs)
  from Cons.prems obtain st c1 where st: "map_of ds x = Some st"
    and c1: "sum_stories c st = Inr c1" and rest: "sum_directions c1 ds xs = Inr c'"
    by (auto split: option.splits sum.splits)
  from sum_stories_acc [OF c1] Cons.IH [OF rest]
  have "c' = accumulate (accumulate c (map snd st)) (map snd (concat (map (stories_of ds) xs)))"
    by simp
  moreover from st have "stories_of ds x = st" by (simp add: stories_of_def)
  ultimately show ?case by (simp only: accumulate_append) simp
qed

lemma sum_key_acc:
  assumes "sum_key self d c nd = Inr c'"
  shows "c' = accumulate c (map snd (counted self d nd))"
proof (cases nd)
  case (Stories st)
  with assms show ?thesis
    by (auto simp: sum_key_def counted_def accumulate_Nil dest: sum_stories_acc split: if_splits)
next
  case (Directions ds)
  show ?thesis
  proof (cases "d = ''Non-directional''")
    case True
    with assms Directions show ?thesis
      by (auto simp: sum_key_def counted_def accumulate_Nil split: list.splits if_splits)
  next
    case False
    with assms Directions have "sum_directions c ds (directions self) = Inr c'"
      by (simp add: sum_key_def)
    from sum_directions_acc [OF this] False Directions show ?thesis
      by (simp add: counted_def directions_def)
  qed
qed

lemma sum_keys_acc:
  "sum_keys self d c keys = Inr c' \<Longrightarrow>
   c' = accumulate c (concat (map (\<lambda>(key, nd). map snd (counted self d nd)) keys))"
proof (induction keys arbitrary: c)
  case Nil
  then show ?case by (simp add: accumulate_def)
next
  case (Cons p keys)
  obtain key nd where p: "p = (key, nd)" by (cases p)
  from Cons.prems p obtain c1 where c1: "sum_key self d c nd = Inr c1"
    and rest: "sum_keys self d c1 keys = Inr c'"
    by (auto split: sum.splits)
  from sum_key_acc [OF c1] Cons.IH [OF rest]
  have "c' = accumulate (accumulate c (map snd (counted self d nd)))
               (concat (map (\<lambda>(key, nd). map snd (counted self d nd)) keys))"
    by simp
  with p show ?case by (simp only: accumulate_append) simp
qed

lemma sum_classes_acc:
  "sum_classes self c df = Inr c' \<Longrightarrow> c' = accumulate c (contributing self df)"
proof (induction df arbitrary: c)
  case Nil
  then show ?case by (simp add: contributing_def accumulate_def)
next
  case (Cons p df)
  obtain d keys where p: "p = (d, keys)" by (cases p)
  from Cons.prems p obtain c1 where c1: "sum_keys self d c keys = Inr c1"
    and rest: "sum_classes self c1 df = Inr c'"
    by (auto split: sum.splits)
  from sum_keys_acc [OF c1] Cons.IH [OF rest]
  have "c' = accumulate (accumulate c (concat (map (\<lambda>(key, nd). map snd (counted self d nd)) keys)))
               (contributing self df)"
    by simp
  with p show ?case by (simp only: accumulate_append) (simp add: contributing_def)
qed

lemma total_comp_cost_acc:
  "total_comp_cost self df = Inr c \<Longrightarrow> c = accumulate PyInt0 (contributing self df)"
  by (simp add: total_comp_cost_def sum_classes_acc)

lemma total_comp_cost_value:
  "total_comp_cost self df = Inr c \<Longrightarrow> cost_value c = sum_list (map peak (contributing self df))"
  by (drule total_comp_cost_acc) (simp add: accumulate_def)

text \<open>In two dimensions the first loop reads no direction but \<^verbatim>\<open>"dir1"\<close>.\<close>

lemma map_of_filter_key: "map_of (filter (\<lambda>p. fst p = k) ds) k = map_of ds k"
  by (induction ds) auto

lemma sum_key_primary:
  "\<not> flag3d self \<Longrightarrow> d \<noteq> ''Non-directional'' \<Longrightarrow>
   sum_key self d c (primary_node nd) = sum_key self d c nd"
  by (cases nd)
     (simp_all add: sum_key_def primary_node_def directions_def map_of_filter_key
        split: option.splits sum.splits)

lemma sum_keys_primary:
  "\<not> flag3d self \<Longrightarrow> d \<noteq> ''Non-directional'' \<Longrightarrow>
   sum_keys self d c (map (\<lambda>(key, nd). (key, primary_node nd)) keys) = sum_keys self d c keys"
proof (induction keys arbitrary: c)
  case Nil
  show ?case by simp
next
  case (Cons p keys)
  obtain key nd where p: "p = (key, nd)" by (cases p)
  show ?case
    using Cons.prems p
    by (simp add: sum_key_primary Cons.IH split: sum.splits)
qed

lemma sum_classes_primary:
  "\<not> flag3d self \<Longrightarrow> sum_classes self c (primary_only df) = sum_classes self c df"
proof (induction df arbitrary: c)
  case Nil
  show ?case by (simp add: primary_only_def)
next
  case (Cons p df)
  obtain d keys where p: "p = (d, keys)" by (cases p)
  have "primary_only (p # df) =
          (d, if d = ''Non-directional'' then keys
              else map (\<lambda>(key, nd). (key, primary_node nd)) keys) # primary_only df"
    by (simp add: primary_only_def p)
  then show ?case
    using Cons.prems Cons.IH p
    by (simp add: sum_keys_primary split: sum.splits)
qed

subsection \<open>Claims about the total and the factor\<close>

text \<open>
  C7. The total that the first loop returns is the sum of the largest loss sample of
  every leaf that counts: under \<^verbatim>\<open>"Non-directional"\<close> every story or floor, under any
  other class the stories of \<^verbatim>\<open>"dir1"\<close>, and those of \<^verbatim>\<open>"dir2"\<close> as well exactly when
  \<^verbatim>\<open>flag3d\<close> is set. When \<^verbatim>\<open>flag3d\<close> is not set, deleting every direction other than
  \<^verbatim>\<open>"dir1"\<close> from the table changes neither the total nor an exception of the loop.
\<close>

theorem total_counts_active_directions:
  "(total_comp_cost self df = Inr c \<longrightarrow>
      cost_value c = sum_list (map peak (contributing self df)))
   \<and> (\<not> flag3d self \<longrightarrow> total_comp_cost self (primary_only df) = total_comp_cost self df)"
  by (simp add: total_comp_cost_value total_comp_cost_def sum_classes_primary)


theorem total_counts_active_directions_witness:
  "total_comp_cost (SLF_init ''slfs.pickle'' 1 1 False False) mixed_table = Inr (Float64 23)
   \<and> cost_value (Float64 23)
       = sum_list (map peak (contributing (SLF_init ''slfs.pickle'' 1 1 False False) mixed_table))
   \<and> \<not> flag3d (SLF_init ''slfs.pickle'' 1 1 False False)
   \<and> total_comp_cost (SLF_init ''slfs.pickle'' 1 1 False False) (primary_only mixed_table)
       = Inr (Float64 23)"
  using total_counts_active_directions
          [of "SLF_init ''slfs.pickle'' 1 1 False False" mixed_table "Float64 23"]
  by (simp add: eval_defs)

text \<open>
  C6. Without \<^verbatim>\<open>normalize\<close> the factor is exactly 1, whatever the total and the
  replacement cost are: once the first loop has returned a total, the builder builds
  its table with the factor 1, and scaling by it leaves every loss sample as it is.
\<close>

theorem factor_one_without_normalize:
  assumes "\<not> normalize self" and "total_comp_cost self df = Inr c"
  shows "factor_of self c' = Inr (Fin 1)
         \<and> the_factor self df = Inr (Fin 1)
         \<and> structured_functions self df = build_classes (Fin 1) df
         \<and> scaled (Fin 1) ys = map Fin ys"
  using assms by (simp add: factor_of_def the_factor_def structured_functions_def scaled_def)

theorem factor_one_without_normalize_witness:
  "\<not> normalize (SLF_init ''slfs.pickle'' 2 1000 True False)
   \<and> total_comp_cost (SLF_init ''slfs.pickle'' 2 1000 True False) two_story_table
       = Inr (Float64 400)
   \<and> factor_of (SLF_init ''slfs.pickle'' 2 1000 True False) (Float64 0) = Inr (Fin 1)
   \<and> the_factor (SLF_init ''slfs.pickle'' 2 1000 True False) two_story_table = Inr (Fin 1)
   \<and> structured_functions (SLF_init ''slfs.pickle'' 2 1000 True False) two_story_table
       = build_classes (Fin 1) two_story_table
   \<and> scaled (Fin 1) [100, 200] = [Fin 100, Fin 200]
   \<and> snd (structured_functions (SLF_init ''slfs.pickle'' 2 1000 True False) two_story_table)
       = Inr [(''Non-directional'',
               [(''PFA_NS'',
                 OStories [(0, Interp1d [Fin 0, Fin 0.01, Fin 0.02] [Fin 0, Fin 100, Fin 200]),
                           (1, Interp1d [Fin 0, Fin 0.01, Fin 0.02] [Fin 0, Fin 100, Fin 200])])])]
   \<and> interp_call (Interp1d [Fin 0, Fin 0.01, Fin 0.02] [Fin 0, Fin 100, Fin 200]) 0.02
       = Inr (Fin 200)"
proof -
  let ?s = "SLF_init ''slfs.pickle'' 2 1000 True False"
  have n: "\<not> normalize ?s" by (simp add: SLF_init_def)
  have t: "total_comp_cost ?s two_story_table = Inr (Float64 400)" by (simp add: eval_defs)
  note one = factor_one_without_normalize [OF n t, of "Float64 0" "[100, 200]"]
  have out: "snd (build_classes (Fin 1) two_story_table)
       = Inr [(''Non-directional'',
               [(''PFA_NS'',
                 OStories [(0, Interp1d [Fin 0, Fin 0.01, Fin 0.02] [Fin 0, Fin 100, Fin 200]),
                           (1, Interp1d [Fin 0, Fin 0.01, Fin 0.02] [Fin 0, Fin 100, Fin 200])])])]"
    by (simp add: eval_defs)
  have call: "interp_call (Interp1d [Fin 0, Fin 0.01, Fin 0.02] [Fin 0, Fin 100, Fin 200]) 0.02
       = Inr (Fin 200)"
    by (simp add: interp_call_def np_interp_def binary_search_with_guess_def linear_search_def
          fge_def fsub_def Let_def)
  from one out have "snd (structured_functions ?s two_story_table)
       = Inr [(''Non-directional'',
               [(''PFA_NS'',
                 OStories [(0, Interp1d [Fin 0, Fin 0.01, Fin 0.02] [Fin 0, Fin 100, Fin 200]),
                           (1, Interp1d [Fin 0, Fin 0.01, Fin 0.02] [Fin 0, Fin 100, Fin 200])])])]"
    by simp
  with n t one call show ?thesis by (simp only: map_eq_Cons_conv list.map) simp
qed

text \<open>
  C1. At a directional leaf with the loss samples \<open>-5, 10\<close> the stored interpolant is
  built from \<open>0, -5, 10\<close>: lines 144-147 do not set the negative sample to zero, as
  line 132 does for a non-directional leaf, and the interpolant returns \<open>-5\<close> at the
  demand \<open>0.01\<close>.
\<close>

theorem directional_losses_not_clamped:
  "snd (structured_functions (SLF_init ''slfs.pickle'' 1 1 True False) (directional_table [- 5, 10]))
   = Inr [(''Directional'',
           [(''IDR_NS'',
             ODirections
               [(''dir1'', [(1, Interp1d [Fin 0, Fin 0.01, Fin 0.02] [Fin 0, Fin (- 5), Fin 10])]),
                (''dir2'', [(1, Interp1d [Fin 0, Fin 0.01, Fin 0.02] [Fin 0, Fin (- 5), Fin 10])])])])]
   \<and> interp_call (Interp1d [Fin 0, Fin 0.01, Fin 0.02] [Fin 0, Fin (- 5), Fin 10]) 0.01
       = Inr (Fin (- 5))"
  by (simp add: eval_defs interp_call_def np_interp_def binary_search_with_guess_def linear_search_def fge_def
        fsub_def Let_def)

text \<open>
  C2, as stated, fails: with \<^verbatim>\<open>normalize\<close> set and a single leaf whose losses are all
  zero, the total is the float \<open>0\<close>, the factor is \<open>+inf\<close>, no exception is raised and
  the returned interpolant holds NaN in every loss sample.
\<close>

theorem zero_total_not_guarded:
  "total_comp_cost (SLF_init ''slfs.pickle'' 1 1000 True True) (one_story_table [0, 0])
     = Inr (Float64 0)
   \<and> factor_of (SLF_init ''slfs.pickle'' 1 1000 True True) (Float64 0) = Inr PInf
   \<and> snd (structured_functions (SLF_init ''slfs.pickle'' 1 1000 True True) (one_story_table [0, 0]))
     = Inr [(''Non-directional'',
             [(''PFA_NS'', OStories [(0, Interp1d [Fin 0, Fin 0.01, Fin 0.02] [NaN, NaN, NaN])])])]"
  by (simp add: eval_defs)

text \<open>
  C2, amended. When \<^verbatim>\<open>normalize\<close> is set and the total is zero there is no guard and the
  division of line 115 is carried out. If no leaf has contributed, the total is still
  the Python integer \<open>0\<close> and the call ends in Python's own \<^verbatim>\<open>ZeroDivisionError\<close>.
  Otherwise the factor is \<open>+inf\<close>, \<open>-inf\<close> or NaN, by the sign of the replacement
  cost, and the table is built with that factor.
\<close>

theorem zero_total_division:
  assumes "normalize self" and "total_comp_cost self df = Inr c" and "cost_value c = 0"
  shows "structured_functions self df =
           (case c of
              PyInt0 \<Rightarrow> (df, Inl ZeroDivisionError)
            | Float64 t \<Rightarrow> build_classes (inf_of (repl_cost self)) df)
         \<and> inf_of (repl_cost self) \<in> {PInf, NInf, NaN}"
  using assms by (cases c) (simp_all add: structured_functions_def factor_of_def inf_of_def)

theorem zero_total_division_witness:
  "normalize (SLF_init ''slfs.pickle'' 1 1000 True True)
   \<and> total_comp_cost (SLF_init ''slfs.pickle'' 1 1000 True True) (one_story_table [0, 0])
       = Inr (Float64 0)
   \<and> cost_value (Float64 0) = 0
   \<and> structured_functions (SLF_init ''slfs.pickle'' 1 1000 True True) (one_story_table [0, 0])
       = build_classes PInf (one_story_table [0, 0])"
  using zero_total_division
          [of "SLF_init ''slfs.pickle'' 1 1000 True True" "one_story_table [0, 0]" "Float64 0"]
  by (simp add: eval_defs)

text \<open>
  C4. When \<^verbatim>\<open>normalize\<close> is set and the total is not zero, the factor is the replacement
  cost divided by the sum of the per-leaf loss maxima, so that this sum times the
  factor is the replacement cost. For two non-directional stories with the losses
  \<open>100, 200\<close> at the demands \<open>0.01, 0.02\<close> and the replacement cost \<open>1000\<close>, the total
  is \<open>400\<close>, the factor is \<open>2.5\<close>, and the interpolant of story 0 returns \<open>500\<close> at the
  demand \<open>0.02\<close> and \<open>0\<close> at the demand \<open>0\<close>.
\<close>

theorem normalization_factor:
  "(normalize self \<and> total_comp_cost self df = Inr c \<and> cost_value c \<noteq> 0 \<longrightarrow>
      factor_of self c
        = Inr (Fin (repl_cost self / sum_list (map peak (contributing self df))))
      \<and> sum_list (map peak (contributing self df))
          * (repl_cost self / sum_list (map peak (contributing self df))) = repl_cost self)
   \<and> total_comp_cost (SLF_init ''slfs.pickle'' 2 1000 True True) two_story_table
       = Inr (Float64 400)
   \<and> factor_of (SLF_init ''slfs.pickle'' 2 1000 True True) (Float64 400) = Inr (Fin 2.5)
   \<and> (\<exists>out f. snd (structured_functions (SLF_init ''slfs.pickle'' 2 1000 True True) two_story_table)
                 = Inr out
        \<and> nd_function out ''Non-directional'' ''PFA_NS'' 0 = Some f
        \<and> interp_call f 0.02 = Inr (Fin 500)
        \<and> interp_call f 0 = Inr (Fin 0))"
proof -
  have general: "factor_of self c
        = Inr (Fin (repl_cost self / sum_list (map peak (contributing self df))))
      \<and> sum_list (map peak (contributing self df))
          * (repl_cost self / sum_list (map peak (contributing self df))) = repl_cost self"
    if "normalize self" and total: "total_comp_cost self df = Inr c" and "cost_value c \<noteq> 0"
  proof -
    from total_comp_cost_value [OF total]
    have v: "cost_value c = sum_list (map peak (contributing self df))" .
    with that show ?thesis by (cases c) (simp_all add: factor_of_def)
  qed
  have total: "total_comp_cost (SLF_init ''slfs.pickle'' 2 1000 True True) two_story_table
       = Inr (Float64 400)"
    by (simp add: eval_defs)
  have factor: "factor_of (SLF_init ''slfs.pickle'' 2 1000 True True) (Float64 400) = Inr (Fin 2.5)"
    by (simp add: eval_defs)
  have out: "snd (structured_functions (SLF_init ''slfs.pickle'' 2 1000 True True) two_story_table)
      = Inr [(''Non-directional'',
              [(''PFA_NS'',
                OStories [(0, Interp1d [Fin 0, Fin 0.01, Fin 0.02] [Fin 0, Fin 250, Fin 500]),
                          (1, Interp1d [Fin 0, Fin 0.01, Fin 0.02] [Fin 0, Fin 250, Fin 500])])])]"
    by (simp add: eval_defs)
  have call: "interp_call (Interp1d [Fin 0, Fin 0.01, Fin 0.02] [Fin 0, Fin 250, Fin 500]) 0.02
           = Inr (Fin 500)
         \<and> interp_call (Interp1d [Fin 0, Fin 0.01, Fin 0.02] [Fin 0, Fin 250, Fin 500]) 0
           = Inr (Fin 0)"
    by (simp add: interp_call_def np_interp_def binary_search_with_guess_def linear_search_def fge_def
        fsub_def Let_def)
  from general total factor out call show ?thesis
    by (simp add: nd_function_def)
qed

theorem normalization_factor_witness:
  "normalize (SLF_init ''slfs.pickle'' 2 1000 True True)
   \<and> total_comp_cost (SLF_init ''slfs.pickle'' 2 1000 True True) two_story_table
       = Inr (Float64 400)
   \<and> cost_value (Float64 400) \<noteq> 0
   \<and> sum_list (map peak (contributing (SLF_init ''slfs.pickle'' 2 1000 True True) two_story_table))
       * (repl_cost (SLF_init ''slfs.pickle'' 2 1000 True True)
           / sum_list (map peak (contributing (SLF_init ''slfs.pickle'' 2 1000 True True) two_story_table)))
       = 1000"
  using normalization_factor
          [of "SLF_init ''slfs.pickle'' 2 1000 True True" two_story_table "Float64 400"]
  by (simp add: SLF_init_def)

subsection \<open>What the builder writes into its input\<close>

lemma clamp_idem: "clamp (clamp ls) = clamp ls"
  by (simp add: clamp_def)

lemma clamp_stories_idem: "clamp_stories (clamp_stories st) = clamp_stories st"
  by (induction st) (auto simp: clamp_stories_def clamp_idem)

lemma nd_stories_state:
  "nd_stories factor st out = (st', r) \<Longrightarrow>
   clamp_stories st' = clamp_stories st \<and> (\<not> isl r \<longrightarrow> st' = clamp_stories st)"
proof (induction st arbitrary: out st' r)
  case Nil
  then show ?case by (simp add: clamp_stories_def)
next
  case (Cons p st)
  obtain i l where p: "p = (i, l)" by (cases p)
  obtain l' e where e: "nd_entry factor i l = (l', e)" by (cases "nd_entry factor i l")
  then have l': "l' = l\<lparr>loss := clamp (loss l)\<rparr>" by (simp add: nd_entry_def Let_def)
  show ?case
  proof (cases e)
    case (Inl err)
    with Cons.prems p e l' show ?thesis by (auto simp: clamp_stories_def clamp_idem)
  next
    case (Inr kf)
    obtain k f where kf: "kf = (k, f)" by (cases kf)
    obtain rest' r' where rec: "nd_stories factor st (AList.update k f out) = (rest', r')"
      by (cases "nd_stories factor st (AList.update k f out)")
    from Cons.prems p e Inr kf rec have "st' = (i, l') # rest'" and "r = r'" by auto
    with Cons.IH [OF rec] l' p show ?thesis by (auto simp: clamp_stories_def clamp_idem)
  qed
qed

lemma build_key_state:
  assumes "build_key factor d nd = (nd', r)"
  shows "clamp_node d nd' = clamp_node d nd \<and> (\<not> isl r \<longrightarrow> nd' = clamp_node d nd)"
proof (cases "d = ''Non-directional''")
  case False
  with assms show ?thesis
    by (cases nd) (auto simp: build_key_def clamp_node_def split: sum.splits)
next
  case True
  show ?thesis
  proof (cases nd)
    case (Directions ds)
    with assms True show ?thesis by (auto simp: build_key_def clamp_node_def)
  next
    case (Stories st)
    obtain st' r' where rec: "nd_stories factor st [] = (st', r')"
      by (cases "nd_stories factor st []")
    with assms True Stories have "nd' = Stories st'" and "isl r = isl r'"
      by (auto simp: build_key_def split: sum.splits)
    with nd_stories_state [OF rec] True Stories show ?thesis by (simp add: clamp_node_def)
  qed
qed

lemma build_keys_state:
  "build_keys factor d keys = (keys', r) \<Longrightarrow>
   map (\<lambda>(key, nd). (key, clamp_node d nd)) keys' = map (\<lambda>(key, nd). (key, clamp_node d nd)) keys
   \<and> (\<not> isl r \<longrightarrow> keys' = map (\<lambda>(key, nd). (key, clamp_node d nd)) keys)"
proof (induction keys arbitrary: keys' r)
  case Nil
  then show ?case by simp
next
  case (Cons p keys)
  obtain key nd where p: "p = (key, nd)" by (cases p)
  obtain nd' e where e: "build_key factor d nd = (nd', e)" by (cases "build_key factor d nd")
  note st = build_key_state [OF e]
  show ?case
  proof (cases e)
    case (Inl err)
    with Cons.prems p e st show ?thesis by auto
  next
    case (Inr out)
    obtain rest' r' where rec: "build_keys factor d keys = (rest', r')"
      by (cases "build_keys factor d keys")
    from Cons.prems p e Inr rec have "keys' = (key, nd') # rest'" and "isl r = isl r'"
      by (auto split: sum.splits)
    with Cons.IH [OF rec] st Inr p show ?thesis by auto
  qed
qed

lemma build_classes_state:
  "build_classes factor df = (df', r) \<Longrightarrow>
   clamp_table df' = clamp_table df \<and> (\<not> isl r \<longrightarrow> df' = clamp_table df)"
proof (induction df arbitrary: df' r)
  case Nil
  then show ?case by (simp add: clamp_table_def)
next
  case (Cons p df)
  obtain d keys where p: "p = (d, keys)" by (cases p)
  obtain keys' e where e: "build_keys factor d keys = (keys', e)"
    by (cases "build_keys factor d keys")
  note st = build_keys_state [OF e]
  show ?case
  proof (cases e)
    case (Inl err)
    with Cons.prems p e st show ?thesis by (auto simp: clamp_table_def)
  next
    case (Inr out)
    obtain rest' r' where rec: "build_classes factor df = (rest', r')"
      by (cases "build_classes factor df")
    from Cons.prems p e Inr rec have "df' = (d, keys') # rest'" and "isl r = isl r'"
      by (auto split: sum.splits)
    with Cons.IH [OF rec] st Inr p show ?thesis by (auto simp: clamp_table_def)
  qed
qed

lemma structured_functions_state:
  assumes "structured_functions self df = (df', r)"
  shows "clamp_table df' = clamp_table df \<and> (\<not> isl r \<longrightarrow> df' = clamp_table df)"
proof (cases "total_comp_cost self df")
  case (Inl e)
  with assms show ?thesis by (auto simp: structured_functions_def)
next
  case (Inr c)
  show ?thesis
  proof (cases "factor_of self c")
    case (Inl e)
    with assms Inr show ?thesis by (auto simp: structured_functions_def)
  next
    case factor: (Inr factor)
    with assms Inr have "build_classes factor df = (df', r)"
      by (simp add: structured_functions_def)
    then show ?thesis by (rule build_classes_state)
  qed
qed

text \<open>
  C3, as stated, fails: the builder is called on a table whose only leaf is
  non-directional with the loss samples \<open>-5, 10\<close>; after the call the table holds
  \<open>0, 10\<close> there.
\<close>

theorem builder_changes_input:
  "fst (get_interpolation_functions (SLF_init ''slfs.pickle'' 1 1 True False)
         (StructuredTable (one_story_table [- 5, 10])))
     = StructuredTable (one_story_table [0, 10])
   \<and> StructuredTable (one_story_table [0, 10]) \<noteq> StructuredTable (one_story_table [- 5, 10])"
  by (simp add: get_interpolation_functions_def eval_defs)

text \<open>
  C3, amended. The builder never writes into a data frame, and with \<^verbatim>\<open>flag\<close> unset it
  writes into no table at all. With \<^verbatim>\<open>flag\<close> set it writes nothing into a structured
  table but line 132: the table after the call and the table before it agree once the
  negative loss samples of the non-directional leaves are set to zero in both (so every
  demand array, every directional leaf and every key is unchanged), and when the call
  returns a dictionary, the table after the call is the table before it with exactly
  those samples set to zero.
\<close>

theorem builder_writes_only_clamped_losses:
  "fst (get_interpolation_functions self (LegacyTable t)) = LegacyTable t
   \<and> (\<not> flag a \<longrightarrow>
         fst (get_interpolation_functions a (StructuredTable d)) = StructuredTable d)
   \<and> (flag b \<longrightarrow>
         (\<exists>d'. fst (get_interpolation_functions b (StructuredTable d)) = StructuredTable d'
            \<and> clamp_table d' = clamp_table d
            \<and> (\<not> isl (snd (get_interpolation_functions b (StructuredTable d)))
                 \<longrightarrow> d' = clamp_table d)))"
proof -
  have legacy: "fst (get_interpolation_functions self (LegacyTable t)) = LegacyTable t"
    by (simp add: get_interpolation_functions_def)
  have unset: "fst (get_interpolation_functions a (StructuredTable d)) = StructuredTable d"
    if "\<not> flag a"
    using that by (simp add: get_interpolation_functions_def)
  have set: "\<exists>d'. fst (get_interpolation_functions b (StructuredTable d)) = StructuredTable d'
          \<and> clamp_table d' = clamp_table d
          \<and> (\<not> isl (snd (get_interpolation_functions b (StructuredTable d)))
               \<longrightarrow> d' = clamp_table d)"
    if "flag b"
  proof -
    obtain d' r where s: "structured_functions b d = (d', r)"
      by (cases "structured_functions b d")
    note st = structured_functions_state [OF s]
    from that s st show ?thesis
      by (cases r) (auto simp: get_interpolation_functions_def)
  qed
  from legacy unset set show ?thesis by blast
qed

theorem builder_writes_only_clamped_losses_witness:
  "fst (get_interpolation_functions (SLF_init ''slf.xlsx'' 1 1 True False)
         (LegacyTable legacy_sample)) = LegacyTable legacy_sample
   \<and> \<not> flag (SLF_init ''slf.xlsx'' 1 1 True False)
   \<and> get_interpolation_functions (SLF_init ''slf.xlsx'' 1 1 True False)
         (StructuredTable (one_story_table [- 5, 10]))
       = (StructuredTable (one_story_table [- 5, 10]), Inr (LegacyFunctions []))
   \<and> flag (SLF_init ''slfs.pickle'' 1 1 True False)
   \<and> \<not> isl (snd (get_interpolation_functions (SLF_init ''slfs.pickle'' 1 1 True False)
                    (StructuredTable (one_story_table [- 5, 10]))))
   \<and> fst (get_interpolation_functions (SLF_init ''slfs.pickle'' 1 1 True False)
            (StructuredTable (one_story_table [- 5, 10])))
       = StructuredTable (clamp_table (one_story_table [- 5, 10]))"
  using builder_writes_only_clamped_losses
          [of "SLF_init ''slf.xlsx'' 1 1 True False" legacy_sample
              "SLF_init ''slf.xlsx'' 1 1 True False" "one_story_table [- 5, 10]"
              "SLF_init ''slfs.pickle'' 1 1 True False"]
  by (simp add: get_interpolation_functions_def eval_defs clamp_table_def clamp_node_def
        clamp_stories_def startswith_def)

subsection \<open>The legacy rewrite of the loader\<close>

lemma rescale_as_product:
  "rescale series (m / T) m w
     = map (\<lambda>s. fmul (Fin s) (fmul (fdiv (Fin (m / T)) (Fin m)) (Fin w))) series"
  by (cases "m = 0") (simp_all add: rescale_def inf_of_def)

lemma rescale_as_quotient:
  "rescale series (m / T) m (1 / n)
     = (if m = 0 then map (\<lambda>s. NaN) series else map (\<lambda>s. Fin (s / T / n)) series)"
  by (simp add: rescale_def inf_of_def)

lemma map_of_map_Fin:
  "map_of (map (\<lambda>(name, column). (name, map Fin column)) df) k
     = map_option (map Fin) (map_of df k)"
  by (induction df) auto

lemma update_keeps_keys: "k \<in> fst ` set al \<Longrightarrow> map fst (AList.update k v al) = map fst al"
  by (induction al) auto

lemma update3_keys:
  "k1 \<in> fst ` set al \<Longrightarrow> k2 \<in> fst ` set al \<Longrightarrow> k3 \<in> fst ` set al \<Longrightarrow>
   map fst (AList.update k1 v1 (AList.update k2 v2 (AList.update k3 v3 al))) = map fst al"
  by (simp add: update_keeps_keys AList.dom_update)

lemma provided_slf_legacy:
  assumes run: "provided_slf self (Xlsx df) = Inr (LegacyTable out)"
    and s: "map_of df ''E_S_IDR'' = Some s_idr"
    and ns: "map_of df ''E_NS_IDR'' = Some ns_idr"
    and pfa: "map_of df ''E_NS_PFA'' = Some ns_pfa"
    and T: "T = Max (set s_idr) + Max (set ns_idr) + Max (set ns_pfa)"
    and w: "w = 1 / of_int (nstories self)"
  shows "out = AList.update ''E_S_IDR'' (rescale s_idr (Max (set s_idr) / T) (Max (set s_idr)) w)
                (AList.update ''E_NS_IDR''
                   (rescale ns_idr (Max (set ns_idr) / T) (Max (set ns_idr)) w)
                   (AList.update ''E_NS_PFA''
                      (rescale ns_pfa (Max (set ns_pfa) / T) (Max (set ns_pfa)) w)
                      (map (\<lambda>(name, column). (name, map Fin column)) df)))"
proof -
  from run have flag: "\<not> flag self"
    by (cases "flag self") (simp_all add: provided_slf_def)
  from run flag s ns pfa obtain m1 where m1: "py_max s_idr = Inr m1"
    by (cases "py_max s_idr") (simp_all add: provided_slf_def)
  from run flag s ns pfa m1 obtain m2 where m2: "py_max ns_idr = Inr m2"
    by (cases "py_max ns_idr") (simp_all add: provided_slf_def)
  from run flag s ns pfa m1 m2 obtain m3 where m3: "py_max ns_pfa = Inr m3"
    by (cases "py_max ns_pfa") (simp_all add: provided_slf_def)
  from py_max_Max [OF m1] py_max_Max [OF m2] py_max_Max [OF m3]
  have M: "m1 = Max (set s_idr)" "m2 = Max (set ns_idr)" "m3 = Max (set ns_pfa)" by simp_all
  from run flag s ns pfa m1 m2 m3 have T0: "m1 + m2 + m3 \<noteq> 0"
    by (cases "m1 + m2 + m3 = 0") (simp_all add: provided_slf_def)
  from run flag s ns pfa m1 m2 m3 T0 have n0: "nstories self \<noteq> 0"
    by (cases "nstories self = 0") (simp_all add: provided_slf_def Let_def)
  from run flag s ns pfa m1 m2 m3 T0 n0 show ?thesis
    unfolding T w M [symmetric]
    by (simp add: provided_slf_def Let_def)
qed

text \<open>
  C8, as stated, fails in its last clause: when the floor-sensitive series is all zero
  (its maximum is \<open>0\<close>) while the total of the maxima is \<open>5\<close>, line 57 divides
  \<open>0\<close> by \<open>0\<close> and every sample of the series becomes NaN, not
  \<open>sample / max_total / story_count = 0\<close>.
\<close>

theorem legacy_rescaling_zero_peak:
  "provided_slf (SLF_init ''slf.xlsx'' 2 1 True False) (Xlsx (xlsx_sample [0, 0]))
     = Inr (LegacyTable
         [(''IDR'', [Fin 0.01, Fin 0.02]), (''PFA'', [Fin 1, Fin 2]),
          (''E_S_IDR'', [Fin 0.1, Fin 0.2]), (''E_NS_IDR'', [Fin 0.1, Fin 0.3]),
          (''E_NS_PFA'', [NaN, NaN])])
   \<and> [NaN, NaN] \<noteq> map (\<lambda>s. Fin (s / (2 + 3 + 0) / 2)) [0, 0]"
  by (simp add: provided_slf_def xlsx_sample_def SLF_init_def endswith_def rescale_def inf_of_def)

text \<open>
  C8, amended. When the legacy loader returns, each of the three loss series is
  replaced, in its place, by the series multiplied by
  \<open>(max(series) / max_total) / max(series) * (1 / story_count)\<close>, where
  \<open>max_total\<close> is the sum of the three maxima; every sample is
  \<open>sample / max_total / story_count\<close> when the maximum of the series is not zero,
  and NaN when it is zero. The names and the order of the columns are unchanged.
\<close>

theorem legacy_rescaling:
  assumes "provided_slf self (Xlsx df) = Inr (LegacyTable out)"
    and "map_of df ''E_S_IDR'' = Some s_idr"
    and "map_of df ''E_NS_IDR'' = Some ns_idr"
    and "map_of df ''E_NS_PFA'' = Some ns_pfa"
    and "max_total = Max (set s_idr) + Max (set ns_idr) + Max (set ns_pfa)"
    and "(name, series) \<in> {(''E_S_IDR'', s_idr), (''E_NS_IDR'', ns_idr), (''E_NS_PFA'', ns_pfa)}"
  shows "map_of out name
           = Some (map (\<lambda>s. fmul (Fin s)
                               (fmul (fdiv (Fin (Max (set series) / max_total))
                                           (Fin (Max (set series))))
                                     (Fin (1 / of_int (nstories self))))) series)
         \<and> map_of out name
           = Some (if Max (set series) = 0 then map (\<lambda>s. NaN) series
                   else map (\<lambda>s. Fin (s / max_total / of_int (nstories self))) series)
         \<and> map fst out = map fst df"
proof -
  note out = provided_slf_legacy [OF assms(1-5) refl]
  have keys: "map fst out = map fst df"
  proof -
    let ?df0 = "map (\<lambda>(name, column). (name, map Fin column)) df"
    have k0: "map fst ?df0 = map fst df"
      by (induction df) auto
    then have "fst ` set ?df0 = fst ` set df"
      by (metis list.set_map)
    with assms(2-4) have "''E_S_IDR'' \<in> fst ` set ?df0" "''E_NS_IDR'' \<in> fst ` set ?df0"
      "''E_NS_PFA'' \<in> fst ` set ?df0"
      by (auto dest!: map_of_SomeD intro: rev_image_eqI)
    then have "map fst out = map fst ?df0"
      unfolding out by (rule update3_keys)
    with k0 show ?thesis by simp
  qed
  from assms(6) have col: "map_of out name
      = Some (rescale series (Max (set series) / max_total) (Max (set series))
                (1 / of_int (nstories self)))"
    unfolding out by (auto simp: AList.update_conv')
  from col have "map_of out name
      = Some (map (\<lambda>s. fmul (Fin s)
                          (fmul (fdiv (Fin (Max (set series) / max_total))
                                      (Fin (Max (set series))))
                                (Fin (1 / of_int (nstories self))))) series)"
    by (simp only: rescale_as_product)
  moreover from col have "map_of out name
      = Some (if Max (set series) = 0 then map (\<lambda>s. NaN) series
              else map (\<lambda>s. Fin (s / max_total / of_int (nstories self))) series)"
    by (simp only: rescale_as_quotient)
  ultimately show ?thesis using keys by (intro conjI)
qed

theorem legacy_rescaling_witness:
  "provided_slf (SLF_init ''slf.xlsx'' 2 1 True False) (Xlsx (xlsx_sample [2, 5]))
     = Inr (LegacyTable
         [(''IDR'', [Fin 0.01, Fin 0.02]), (''PFA'', [Fin 1, Fin 2]),
          (''E_S_IDR'', [Fin 0.05, Fin 0.1]), (''E_NS_IDR'', [Fin 0.05, Fin 0.15]),
          (''E_NS_PFA'', [Fin 0.1, Fin 0.25])])
   \<and> map_of (xlsx_sample [2, 5]) ''E_S_IDR'' = Some [1, 2]
   \<and> map_of (xlsx_sample [2, 5]) ''E_NS_IDR'' = Some [1, 3]
   \<and> map_of (xlsx_sample [2, 5]) ''E_NS_PFA'' = Some [2, 5]
   \<and> (10::real) = Max (set [1, 2]) + Max (set [1, 3]) + Max (set [2, 5])
   \<and> map_of [(''IDR'', [Fin 0.01, Fin 0.02]), (''PFA'', [Fin 1, Fin 2]),
          (''E_S_IDR'', [Fin 0.05, Fin 0.1]), (''E_NS_IDR'', [Fin 0.05, Fin 0.15]),
          (''E_NS_PFA'', [Fin 0.1, Fin 0.25])] ''E_NS_PFA''
       = Some (map (\<lambda>s. Fin (s / 10 / of_int 2)) [2, 5])"
proof -
  let ?s = "SLF_init ''slf.xlsx'' 2 1 True False"
  let ?out = "[(''IDR'', [Fin 0.01, Fin 0.02]), (''PFA'', [Fin 1, Fin 2]),
          (''E_S_IDR'', [Fin 0.05, Fin 0.1]), (''E_NS_IDR'', [Fin 0.05, Fin 0.15]),
          (''E_NS_PFA'', [Fin 0.1, Fin 0.25])]"
  have run: "provided_slf ?s (Xlsx (xlsx_sample [2, 5])) = Inr (LegacyTable ?out)"
    by (simp add: provided_slf_def xlsx_sample_def SLF_init_def endswith_def rescale_def)
  have a: "map_of (xlsx_sample [2, 5]) ''E_S_IDR'' = Some [1, 2]"
    and b: "map_of (xlsx_sample [2, 5]) ''E_NS_IDR'' = Some [1, 3]"
    and c: "map_of (xlsx_sample [2, 5]) ''E_NS_PFA'' = Some [2, 5]"
    by (simp_all add: xlsx_sample_def)
  have T: "(10::real) = Max (set [1, 2]) + Max (set [1, 3]) + Max (set [2, 5])" by simp
  have n: "(''E_NS_PFA'', [2, 5::real])
             \<in> {(''E_S_IDR'', [1, 2]), (''E_NS_IDR'', [1, 3]), (''E_NS_PFA'', [2, 5])}"
    by simp
  have ns: "nstories ?s = 2" by (simp add: SLF_init_def)
  from legacy_rescaling [OF run a b c T n]
  have "map_of ?out ''E_NS_PFA''
          = Some (if Max (set [2, 5::real]) = 0 then map (\<lambda>s. NaN) [2, 5::real]
                  else map (\<lambda>s. Fin (s / 10 / of_int (nstories ?s))) [2, 5])"
    by (rule conjunct2 [THEN conjunct1])
  then have d: "map_of ?out ''E_NS_PFA'' = Some (map (\<lambda>s. Fin (s / 10 / of_int 2)) [2, 5])"
    by (simp add: ns)
  from run a b c T d show ?thesis by (intro conjI)
qed

subsection \<open>Where an entry is stored\<close>

lemma story_key_last_digit: "story_key i = Inr k \<Longrightarrow> k = last_digit i"
  by (auto simp: story_key_def last_digit_def Let_def split: if_splits)

lemma story_key_same_last:
  "story_key i = Inr k \<Longrightarrow> story_key j = Inr k \<Longrightarrow> last j = last i"
proof -
  assume i: "story_key i = Inr k" and j: "story_key j = Inr k"
  then have "int (of_char (last i)) = int (of_char (last j))"
    by (auto simp: story_key_def Let_def split: if_splits)
  then have "(of_char (last i) :: nat) = of_char (last j)" by simp
  then show ?thesis by simp
qed

lemma dir_entry_Inr:
  "dir_entry factor i l = Inr (k, f) \<longleftrightarrow>
   interp1d (map Fin (0 # edp l)) (scaled factor (0 # loss l)) = Inr f \<and> story_key i = Inr k"
  by (auto simp: dir_entry_def Let_def split: sum.splits)

lemma nd_entry_as_dir:
  "snd (nd_entry factor i l) = dir_entry factor i (l\<lparr>loss := clamp (loss l)\<rparr>)"
  by (simp add: nd_entry_def dir_entry_def Let_def)

lemma nd_stories_as_dir:
  "snd (nd_stories factor st out) = dir_stories factor (clamp_stories st) out"
proof (induction st arbitrary: out)
  case Nil
  show ?case by (simp add: clamp_stories_def)
next
  case (Cons p st)
  obtain i l where p: "p = (i, l)" by (cases p)
  obtain l' e where e: "nd_entry factor i l = (l', e)" by (cases "nd_entry factor i l")
  with nd_entry_as_dir [of factor i l]
  have d: "dir_entry factor i (l\<lparr>loss := clamp (loss l)\<rparr>) = e" by simp
  have c: "clamp_stories (p # st) = (i, l\<lparr>loss := clamp (loss l)\<rparr>) # clamp_stories st"
    by (simp add: clamp_stories_def p)
  show ?case
  proof (cases e)
    case (Inl err)
    with e d p show ?thesis unfolding c by simp
  next
    case (Inr kf)
    obtain k f where kf: "kf = (k, f)" by (cases kf)
    obtain rest' r where rec: "nd_stories factor st (AList.update k f out) = (rest', r)"
      by (cases "nd_stories factor st (AList.update k f out)")
    with Cons.IH [of "AList.update k f out"]
    have "dir_stories factor (clamp_stories st) (AList.update k f out) = r" by simp
    with rec e d p Inr kf show ?thesis
      unfolding c by simp
  qed
qed

lemma dir_stories_keep:
  "dir_stories factor st out = Inr fs \<Longrightarrow> \<forall>i\<in>fst ` set st. story_key i \<noteq> Inr k \<Longrightarrow>
   map_of fs k = map_of out k"
proof (induction st arbitrary: out)
  case Nil
  then show ?case by simp
next
  case (Cons p st)
  obtain i l where p: "p = (i, l)" by (cases p)
  from Cons.prems(1) p obtain k' g where e: "dir_entry factor i l = Inr (k', g)"
    and rec: "dir_stories factor st (AList.update k' g out) = Inr fs"
    by (auto split: sum.splits)
  from e have "story_key i = Inr k'" by (simp add: dir_entry_Inr)
  with Cons.prems(2) p have ne: "k' \<noteq> k" by auto
  from Cons.prems(2) have "\<forall>i\<in>fst ` set st. story_key i \<noteq> Inr k" by simp
  from Cons.IH [OF rec this] ne show ?case by (simp add: AList.update_conv')
qed

lemma dir_stories_last:
  "dir_stories factor (before @ (i, l) # after) out = Inr fs \<Longrightarrow>
   story_key i = Inr k \<Longrightarrow> \<forall>j\<in>fst ` set after. story_key j \<noteq> Inr k \<Longrightarrow>
   \<exists>f. dir_entry factor i l = Inr (k, f) \<and> map_of fs k = Some f"
proof (induction before arbitrary: out)
  case Nil
  from Nil.prems(1) obtain k' g where e: "dir_entry factor i l = Inr (k', g)"
    and rec: "dir_stories factor after (AList.update k' g out) = Inr fs"
    by (auto split: sum.splits)
  from e Nil.prems(2) have k: "k' = k" by (simp add: dir_entry_Inr)
  from dir_stories_keep [OF rec Nil.prems(3)] k have "map_of fs k = Some g"
    by (simp add: AList.update_conv')
  with e k show ?case by simp
next
  case (Cons p before)
  obtain i' l' where p: "p = (i', l')" by (cases p)
  from Cons.prems(1) p obtain k' g where
    rec: "dir_stories factor (before @ (i, l) # after) (AList.update k' g out) = Inr fs"
    by (auto split: sum.splits)
  from Cons.IH [OF rec Cons.prems(2,3)] show ?case .
qed

lemma dir_stories_present:
  "dir_stories factor st out = Inr fs \<Longrightarrow> (i, l) \<in> set st \<Longrightarrow> story_key i = Inr k \<Longrightarrow>
   \<exists>f. map_of fs k = Some f"
proof (induction st arbitrary: out i l)
  case Nil
  then show ?case by simp
next
  case (Cons p st)
  obtain i' l' where p: "p = (i', l')" by (cases p)
  from Cons.prems(1) p obtain k' g where e: "dir_entry factor i' l' = Inr (k', g)"
    and rec: "dir_stories factor st (AList.update k' g out) = Inr fs"
    by (auto split: sum.splits)
  show ?case
  proof (cases "(i, l) \<in> set st")
    case True
    from Cons.IH [OF rec True Cons.prems(3)] show ?thesis .
  next
    case False
    with Cons.prems(2) p have "i' = i" by simp
    with e Cons.prems(3) have k: "k' = k" by (simp add: dir_entry_Inr)
    show ?thesis
    proof (cases "\<forall>j\<in>fst ` set st. story_key j \<noteq> Inr k")
      case True
      from dir_stories_keep [OF rec True] k show ?thesis by (simp add: AList.update_conv')
    next
      case False
      then obtain j m where jm: "(j, m) \<in> set st" and sk: "story_key j = Inr k" by auto
      from Cons.IH [OF rec jm sk] show ?thesis .
    qed
  qed
qed

lemma dir_stories_keys:
  "dir_stories factor st out = Inr fs \<Longrightarrow>
   fst ` set fs = fst ` set out \<union> last_digit ` fst ` set st
   \<and> (distinct (map fst out) \<longrightarrow> distinct (map fst fs))"
proof (induction st arbitrary: out)
  case Nil
  then show ?case by simp
next
  case (Cons p st)
  obtain i l where p: "p = (i, l)" by (cases p)
  from Cons.prems(1) p obtain k g where e: "dir_entry factor i l = Inr (k, g)"
    and rec: "dir_stories factor st (AList.update k g out) = Inr fs"
    by (auto split: sum.splits)
  from e have "k = last_digit i" by (simp add: dir_entry_Inr story_key_last_digit)
  with Cons.IH [OF rec] p show ?case
    by (auto simp: AList.dom_update AList.distinct_update)
qed

lemma dir_stories_length:
  assumes "dir_stories factor st [] = Inr fs"
  shows "length fs = card (last_digit ` fst ` set st)"
proof -
  from dir_stories_keys [OF assms]
  have k: "fst ` set fs = last_digit ` fst ` set st" and d: "distinct (map fst fs)" by simp_all
  from distinct_card [OF d] have "length fs = card (fst ` set fs)" by simp
  with k show ?thesis by simp
qed

lemma set_map_comp: "set (map (g \<circ> f) xs) = g ` f ` set xs"
  by (simp add: image_comp)

lemma collision_shrinks:
  assumes "dir_stories factor (before @ (i1, l1) # mid @ (i2, l2) # after) [] = Inr fs"
    and "last i1 = last i2"
  shows "length fs < length (before @ (i1, l1) # mid @ (i2, l2) # after)"
proof -
  let ?st = "before @ (i1, l1) # mid @ (i2, l2) # after"
  let ?ks = "map (last_digit \<circ> fst) ?st"
  from assms(2) have "last_digit i1 = last_digit i2" by (simp add: last_digit_def)
  then have "\<not> distinct ?ks" by auto
  then have "card (set ?ks) \<noteq> length ?ks" using card_distinct by blast
  moreover have "card (set ?ks) \<le> length ?ks" by (rule card_length)
  ultimately have "card (set ?ks) < length ?st" by simp
  moreover have "set ?ks = last_digit ` fst ` set ?st" by (rule set_map_comp)
  ultimately show ?thesis using dir_stories_length [OF assms(1)] by simp
qed

text \<open>Finding a node of the input in the output.\<close>

lemma build_keys_lookup:
  "build_keys factor d keys = (keys', Inr ns) \<Longrightarrow> map_of keys key = Some nd \<Longrightarrow>
   \<exists>nd' n. build_key factor d nd = (nd', Inr n) \<and> map_of ns key = Some n"
proof (induction keys arbitrary: keys' ns)
  case Nil
  then show ?case by simp
next
  case (Cons p keys)
  obtain key0 nd0 where p: "p = (key0, nd0)" by (cases p)
  from Cons.prems(1) p obtain nd' n rest' ns' where k: "build_key factor d nd0 = (nd', Inr n)"
    and rec: "build_keys factor d keys = (rest', Inr ns')" and ns: "ns = (key0, n) # ns'"
    by (auto split: prod.splits sum.splits)
  show ?case
  proof (cases "key0 = key")
    case True
    with Cons.prems(2) p k ns show ?thesis by auto
  next
    case False
    with Cons.prems(2) p have "map_of keys key = Some nd" by simp
    from Cons.IH [OF rec this] False ns show ?thesis by simp
  qed
qed

lemma build_classes_lookup:
  "build_classes factor df = (df', Inr out) \<Longrightarrow> map_of df d = Some keys \<Longrightarrow>
   \<exists>keys' ns. build_keys factor d keys = (keys', Inr ns) \<and> map_of out d = Some ns"
proof (induction df arbitrary: df' out)
  case Nil
  then show ?case by simp
next
  case (Cons p df)
  obtain d0 keys0 where p: "p = (d0, keys0)" by (cases p)
  from Cons.prems(1) p obtain keys' ns rest' out' where
    k: "build_keys factor d0 keys0 = (keys', Inr ns)"
    and rec: "build_classes factor df = (rest', Inr out')" and out: "out = (d0, ns) # out'"
    by (auto split: prod.splits sum.splits)
  show ?case
  proof (cases "d0 = d")
    case True
    with Cons.prems(2) p k out show ?thesis by auto
  next
    case False
    with Cons.prems(2) p have "map_of df d = Some keys" by simp
    from Cons.IH [OF rec this] False out show ?thesis by simp
  qed
qed

lemma dir_directions_lookup:
  "dir_directions factor ds = Inr os \<Longrightarrow> map_of ds x = Some st \<Longrightarrow>
   \<exists>fs. dir_stories factor st [] = Inr fs \<and> map_of os x = Some fs"
proof (induction ds arbitrary: os)
  case Nil
  then show ?case by simp
next
  case (Cons p ds)
  obtain x0 st0 where p: "p = (x0, st0)" by (cases p)
  from Cons.prems(1) p obtain fs os' where s: "dir_stories factor st0 [] = Inr fs"
    and rec: "dir_directions factor ds = Inr os'" and os: "os = (x0, fs) # os'"
    by (auto split: sum.splits)
  show ?case
  proof (cases "x0 = x")
    case True
    with Cons.prems(2) p s os show ?thesis by auto
  next
    case False
    with Cons.prems(2) p have "map_of ds x = Some st" by simp
    from Cons.IH [OF rec this] False os show ?thesis by simp
  qed
qed

lemma structured_functions_factor:
  assumes "structured_functions self df = (df', Inr out)"
  shows "\<exists>factor. the_factor self df = Inr factor \<and> build_classes factor df = (df', Inr out)"
  using assms by (auto simp: structured_functions_def the_factor_def split: sum.splits)

text \<open>The stories of a non-directional node and of one direction, in the output.\<close>

lemma nd_group:
  assumes "build_classes factor df = (df', Inr out)"
    and "map_of df ''Non-directional'' = Some keys"
    and "map_of keys key = Some (Stories st)"
  shows "\<exists>fs. dir_stories factor (clamp_stories st) [] = Inr fs
           \<and> nd_function out ''Non-directional'' key = map_of fs
           \<and> nd_count out ''Non-directional'' key = Some (length fs)"
proof -
  from build_classes_lookup [OF assms(1,2)] obtain keys' ns where
    ks: "build_keys factor ''Non-directional'' keys = (keys', Inr ns)"
    and o: "map_of out ''Non-directional'' = Some ns" by blast
  from build_keys_lookup [OF ks assms(3)] obtain nd' n where
    k: "build_key factor ''Non-directional'' (Stories st) = (nd', Inr n)"
    and n: "map_of ns key = Some n" by blast
  from k obtain st' fs where s: "nd_stories factor st [] = (st', Inr fs)" and nf: "n = OStories fs"
    by (auto simp: build_key_def split: prod.splits sum.splits)
  from s nd_stories_as_dir [of factor st "[]"]
  have "dir_stories factor (clamp_stories st) [] = Inr fs" by simp
  with o n nf show ?thesis
    by (auto simp: nd_function_def nd_count_def fun_eq_iff)
qed

lemma dir_group:
  assumes "build_classes factor df = (df', Inr out)"
    and "d \<noteq> ''Non-directional''"
    and "map_of df d = Some keys"
    and "map_of keys key = Some (Directions ds)"
    and "map_of ds x = Some st"
  shows "\<exists>fs. dir_stories factor st [] = Inr fs
           \<and> dir_function out d key x = map_of fs
           \<and> dir_count out d key x = Some (length fs)"
proof -
  from build_classes_lookup [OF assms(1,3)] obtain keys' ns where
    ks: "build_keys factor d keys = (keys', Inr ns)"
    and o: "map_of out d = Some ns" by blast
  from build_keys_lookup [OF ks assms(4)] obtain nd' n where
    k: "build_key factor d (Directions ds) = (nd', Inr n)"
    and n: "map_of ns key = Some n" by blast
  from k assms(2) obtain os where s: "dir_directions factor ds = Inr os"
    and nf: "n = ODirections os"
    by (auto simp: build_key_def split: sum.splits)
  from dir_directions_lookup [OF s assms(5)] obtain fs where
    "dir_stories factor st [] = Inr fs" and "map_of os x = Some fs" by blast
  with o n nf show ?thesis
    by (auto simp: dir_function_def dir_count_def fun_eq_iff)
qed

lemma clamp_stories_split:
  "clamp_stories (before @ (i, l) # after)
     = clamp_stories before @ (i, l\<lparr>loss := clamp (loss l)\<rparr>) # clamp_stories after"
  by (simp add: clamp_stories_def)

lemma clamp_stories_keys: "fst ` set (clamp_stories st) = fst ` set st"
  by (induction st) (auto simp: clamp_stories_def)

lemma dir_stories_story_key:
  "dir_stories factor st out = Inr fs \<Longrightarrow> (i, l) \<in> set st \<Longrightarrow>
   story_key i = Inr (last_digit i)"
proof (induction st arbitrary: out)
  case Nil
  then show ?case by simp
next
  case (Cons p st)
  obtain i' l' where p: "p = (i', l')" by (cases p)
  from Cons.prems(1) p obtain k g where e: "dir_entry factor i' l' = Inr (k, g)"
    and rec: "dir_stories factor st (AList.update k g out) = Inr fs"
    by (auto split: sum.splits)
  show ?case
  proof (cases "(i, l) \<in> set st")
    case True
    from Cons.IH [OF rec True] show ?thesis .
  next
    case False
    with Cons.prems(2) p have "i' = i" by simp
    with e have "story_key i = Inr k" by (simp add: dir_entry_Inr)
    with story_key_last_digit [OF this] show ?thesis by simp
  qed
qed

lemma group_lookup:
  assumes run: "dir_stories factor (before @ (i, l) # after) [] = Inr fs"
    and key: "story_key i = Inr k"
  shows "\<exists>f. map_of fs k = Some f
           \<and> ((\<forall>j\<in>fst ` set after. last j \<noteq> last i) \<longrightarrow>
                 interp1d (map Fin (0 # edp l)) (scaled factor (0 # loss l)) = Inr f)"
proof (cases "\<forall>j\<in>fst ` set after. last j \<noteq> last i")
  case True
  with key have "\<forall>j\<in>fst ` set after. story_key j \<noteq> Inr k"
    by (blast dest: story_key_same_last)
  from dir_stories_last [OF run key this] show ?thesis
    by (auto simp: dir_entry_Inr)
next
  case False
  have "(i, l) \<in> set (before @ (i, l) # after)" by simp
  from dir_stories_present [OF run this key] False show ?thesis by blast
qed

lemma group_collision:
  assumes run: "dir_stories factor (before @ (i1, l1) # mid @ (i2, l2) # after) [] = Inr fs"
    and same: "last i1 = last i2"
    and later: "\<forall>j\<in>fst ` set after. last j \<noteq> last i2"
  shows "\<exists>f. map_of fs (last_digit i2) = Some f
           \<and> interp1d (map Fin (0 # edp l2)) (scaled factor (0 # loss l2)) = Inr f
           \<and> length fs < length (before @ (i1, l1) # mid @ (i2, l2) # after)"
proof -
  have "(i2, l2) \<in> set (before @ (i1, l1) # mid @ (i2, l2) # after)" by simp
  from dir_stories_story_key [OF run this] have key: "story_key i2 = Inr (last_digit i2)" .
  from run have run': "dir_stories factor ((before @ (i1, l1) # mid) @ (i2, l2) # after) [] = Inr fs"
    by simp
  from group_lookup [OF run' key] later obtain f where "map_of fs (last_digit i2) = Some f"
    and "interp1d (map Fin (0 # edp l2)) (scaled factor (0 # loss l2)) = Inr f"
    by blast
  with collision_shrinks [OF run same] show ?thesis by blast
qed


text \<open>
  C10. Take a structured call that returns its dictionary, and a group (one class, one
  demand-parameter key, one direction if any) in which two identifiers end in the same
  character, the second being the last of the group to do so. The output holds, under
  the integer of that character, the interpolant built from the samples of the second
  one, and the group of the output has fewer interpolants than the input group has
  entries.
\<close>

theorem shared_last_character_overwrites:
  assumes "structured_functions self df = (df', Inr out)"
    and "last ia = last ib"
  shows "(map_of df ''Non-directional'' = Some keys
          \<and> map_of keys key = Some (Stories (before @ (ia, la) # mid @ (ib, lb) # after))
          \<and> (\<forall>j\<in>fst ` set after. last j \<noteq> last ib) \<longrightarrow>
            (\<exists>factor f n. the_factor self df = Inr factor
               \<and> nd_function out ''Non-directional'' key (last_digit ib) = Some f
               \<and> interp1d (map Fin (0 # edp lb)) (scaled factor (0 # clamp (loss lb))) = Inr f
               \<and> nd_count out ''Non-directional'' key = Some n
               \<and> n < length (before @ (ia, la) # mid @ (ib, lb) # after)))
       \<and> (d \<noteq> ''Non-directional'' \<and> map_of df d = Some dkeys
          \<and> map_of dkeys dkey = Some (Directions ds)
          \<and> map_of ds x = Some (dbefore @ (ia, ma) # dmid @ (ib, mb) # dafter)
          \<and> (\<forall>j\<in>fst ` set dafter. last j \<noteq> last ib) \<longrightarrow>
            (\<exists>factor f n. the_factor self df = Inr factor
               \<and> dir_function out d dkey x (last_digit ib) = Some f
               \<and> interp1d (map Fin (0 # edp mb)) (scaled factor (0 # loss mb)) = Inr f
               \<and> dir_count out d dkey x = Some n
               \<and> n < length (dbefore @ (ia, ma) # dmid @ (ib, mb) # dafter)))"
proof -
  from structured_functions_factor [OF assms(1)] obtain factor where
    factor: "the_factor self df = Inr factor" and b: "build_classes factor df = (df', Inr out)"
    by blast
  have nd: "\<exists>factor f n. the_factor self df = Inr factor
               \<and> nd_function out ''Non-directional'' key (last_digit ib) = Some f
               \<and> interp1d (map Fin (0 # edp lb)) (scaled factor (0 # clamp (loss lb))) = Inr f
               \<and> nd_count out ''Non-directional'' key = Some n
               \<and> n < length (before @ (ia, la) # mid @ (ib, lb) # after)"
    if ks: "map_of df ''Non-directional'' = Some keys"
      and st: "map_of keys key = Some (Stories (before @ (ia, la) # mid @ (ib, lb) # after))"
      and later: "\<forall>j\<in>fst ` set after. last j \<noteq> last ib"
  proof -
    from nd_group [OF b ks st] obtain fs where
      run: "dir_stories factor (clamp_stories (before @ (ia, la) # mid @ (ib, lb) # after)) []
              = Inr fs"
      and look: "nd_function out ''Non-directional'' key = map_of fs"
      and count: "nd_count out ''Non-directional'' key = Some (length fs)" by blast
    from run have run': "dir_stories factor
        (clamp_stories before @ (ia, la\<lparr>loss := clamp (loss la)\<rparr>) # clamp_stories mid
           @ (ib, lb\<lparr>loss := clamp (loss lb)\<rparr>) # clamp_stories after) [] = Inr fs"
      by (simp only: clamp_stories_split)
    from later have "\<forall>j\<in>fst ` set (clamp_stories after). last j \<noteq> last ib"
      by (simp only: clamp_stories_keys)
    from group_collision [OF run' assms(2) this] factor look count show ?thesis
      by (auto simp: clamp_stories_def)
  qed
  have dir: "\<exists>factor f n. the_factor self df = Inr factor
               \<and> dir_function out d dkey x (last_digit ib) = Some f
               \<and> interp1d (map Fin (0 # edp mb)) (scaled factor (0 # loss mb)) = Inr f
               \<and> dir_count out d dkey x = Some n
               \<and> n < length (dbefore @ (ia, ma) # dmid @ (ib, mb) # dafter)"
    if d: "d \<noteq> ''Non-directional''" and ks: "map_of df d = Some dkeys"
      and n: "map_of dkeys dkey = Some (Directions ds)"
      and st: "map_of ds x = Some (dbefore @ (ia, ma) # dmid @ (ib, mb) # dafter)"
      and later: "\<forall>j\<in>fst ` set dafter. last j \<noteq> last ib"
  proof -
    from dir_group [OF b d ks n st] obtain fs where
      run: "dir_stories factor (dbefore @ (ia, ma) # dmid @ (ib, mb) # dafter) [] = Inr fs"
      and look: "dir_function out d dkey x = map_of fs"
      and count: "dir_count out d dkey x = Some (length fs)" by blast
    from group_collision [OF run assms(2) later] factor look count show ?thesis by auto
  qed
  from nd dir show ?thesis by blast
qed



theorem shared_last_character_overwrites_witness:
  "structured_functions (SLF_init ''slfs.pickle'' 2 1 False False) collision_table
     = (collision_table,
        Inr [(''Non-directional'',
              [(''PFA_NS'', OStories [(2, Interp1d [Fin 0, Fin 0.01, Fin 0.02] [Fin 0, Fin 3, Fin 4])])]),
             (''Directional'',
              [(''IDR_NS'',
                ODirections
                  [(''dir1'', [(2, Interp1d [Fin 0, Fin 0.01, Fin 0.02] [Fin 0, Fin 3, Fin 4])])])])])
   \<and> last ''story2'' = last ''story12''
   \<and> (\<exists>factor f n.
         the_factor (SLF_init ''slfs.pickle'' 2 1 False False) collision_table = Inr factor
         \<and> nd_function
              [(''Non-directional'',
                [(''PFA_NS'', OStories [(2, Interp1d [Fin 0, Fin 0.01, Fin 0.02] [Fin 0, Fin 3, Fin 4])])]),
               (''Directional'',
                [(''IDR_NS'',
                  ODirections
                    [(''dir1'', [(2, Interp1d [Fin 0, Fin 0.01, Fin 0.02] [Fin 0, Fin 3, Fin 4])])])])]
              ''Non-directional'' ''PFA_NS'' (last_digit ''story12'') = Some f
         \<and> interp1d (map Fin (0 # edp (samples [3, 4])))
              (scaled factor (0 # clamp (loss (samples [3, 4])))) = Inr f
         \<and> nd_count
              [(''Non-directional'',
                [(''PFA_NS'', OStories [(2, Interp1d [Fin 0, Fin 0.01, Fin 0.02] [Fin 0, Fin 3, Fin 4])])]),
               (''Directional'',
                [(''IDR_NS'',
                  ODirections
                    [(''dir1'', [(2, Interp1d [Fin 0, Fin 0.01, Fin 0.02] [Fin 0, Fin 3, Fin 4])])])])]
              ''Non-directional'' ''PFA_NS'' = Some n
         \<and> n < 2)
   \<and> (\<exists>factor f n.
         the_factor (SLF_init ''slfs.pickle'' 2 1 False False) collision_table = Inr factor
         \<and> dir_function
              [(''Non-directional'',
                [(''PFA_NS'', OStories [(2, Interp1d [Fin 0, Fin 0.01, Fin 0.02] [Fin 0, Fin 3, Fin 4])])]),
               (''Directional'',
                [(''IDR_NS'',
                  ODirections
                    [(''dir1'', [(2, Interp1d [Fin 0, Fin 0.01, Fin 0.02] [Fin 0, Fin 3, Fin 4])])])])]
              ''Directional'' ''IDR_NS'' ''dir1'' (last_digit ''story12'') = Some f
         \<and> interp1d (map Fin (0 # edp (samples [3, 4])))
              (scaled factor (0 # loss (samples [3, 4]))) = Inr f
         \<and> dir_count
              [(''Non-directional'',
                [(''PFA_NS'', OStories [(2, Interp1d [Fin 0, Fin 0.01, Fin 0.02] [Fin 0, Fin 3, Fin 4])])]),
               (''Directional'',
                [(''IDR_NS'',
                  ODirections
                    [(''dir1'', [(2, Interp1d [Fin 0, Fin 0.01, Fin 0.02] [Fin 0, Fin 3, Fin 4])])])])]
              ''Directional'' ''IDR_NS'' ''dir1'' = Some n
         \<and> n < 2)"
proof -
  let ?s = "SLF_init ''slfs.pickle'' 2 1 False False"
  let ?out = "[(''Non-directional'',
                [(''PFA_NS'', OStories [(2, Interp1d [Fin 0, Fin 0.01, Fin 0.02] [Fin 0, Fin 3, Fin 4])])]),
               (''Directional'',
                [(''IDR_NS'',
                  ODirections
                    [(''dir1'', [(2, Interp1d [Fin 0, Fin 0.01, Fin 0.02] [Fin 0, Fin 3, Fin 4])])])])]"
  let ?st = "[] @ (''story2'', samples [1, 2]) # [] @ (''story12'', samples [3, 4]) # []"
  have run: "structured_functions ?s collision_table = (collision_table, Inr ?out)"
    by (simp add: eval_defs collision_table_def)
  have same: "last ''story2'' = last ''story12''"
    by simp
  have nd: "map_of collision_table ''Non-directional'' = Some [(''PFA_NS'', Stories ?st)]
            \<and> map_of [(''PFA_NS'', Stories ?st)] ''PFA_NS'' = Some (Stories ?st)
            \<and> (\<forall>j\<in>fst ` set ([] :: stories). last j \<noteq> last ''story12'')"
    by (simp add: collision_table_def)
  have dir: "''Directional'' \<noteq> ''Non-directional''
            \<and> map_of collision_table ''Directional''
              = Some [(''IDR_NS'', Directions [(''dir1'', ?st)])]
            \<and> map_of [(''IDR_NS'', Directions [(''dir1'', ?st)])] ''IDR_NS''
              = Some (Directions [(''dir1'', ?st)])
            \<and> map_of [(''dir1'', ?st)] ''dir1'' = Some ?st
            \<and> (\<forall>j\<in>fst ` set ([] :: stories). last j \<noteq> last ''story12'')"
    by (simp add: collision_table_def)
  note ov = shared_last_character_overwrites [OF run same,
      where keys = "[(''PFA_NS'', Stories ?st)]" and key = "''PFA_NS''"
        and before = "[]" and la = "samples [1, 2]" and mid = "[]"
        and lb = "samples [3, 4]" and after = "[]"
        and d = "''Directional''" and dkeys = "[(''IDR_NS'', Directions [(''dir1'', ?st)])]"
        and dkey = "''IDR_NS''" and ds = "[(''dir1'', ?st)]" and x = "''dir1''"
        and dbefore = "[]" and ma = "samples [1, 2]" and dmid = "[]"
        and mb = "samples [3, 4]" and dafter = "[]"]
  from ov [THEN conjunct1, rule_format, OF nd]
  have a: "\<exists>factor f n. the_factor ?s collision_table = Inr factor
             \<and> nd_function ?out ''Non-directional'' ''PFA_NS'' (last_digit ''story12'') = Some f
             \<and> interp1d (map Fin (0 # edp (samples [3, 4])))
                  (scaled factor (0 # clamp (loss (samples [3, 4])))) = Inr f
             \<and> nd_count ?out ''Non-directional'' ''PFA_NS'' = Some n
             \<and> n < 2"
    by (simp add: numeral_2_eq_2)
  from ov [THEN conjunct2, rule_format, OF dir]
  have b: "\<exists>factor f n. the_factor ?s collision_table = Inr factor
             \<and> dir_function ?out ''Directional'' ''IDR_NS'' ''dir1'' (last_digit ''story12'') = Some f
             \<and> interp1d (map Fin (0 # edp (samples [3, 4])))
                  (scaled factor (0 # loss (samples [3, 4]))) = Inr f
             \<and> dir_count ?out ''Directional'' ''IDR_NS'' ''dir1'' = Some n
             \<and> n < 2"
    by (simp add: numeral_2_eq_2)
  from run same a b show ?thesis by (intro conjI)
qed

subsection \<open>The zero sample in front of every sequence\<close>



















end
